theory Spec2Isabelle
  imports Complex_Main "HOL-Library.Word" "HOL-Library.List_Lexorder" "HOL-Library.Sublist"
begin

unbundle bit_operations_syntax

section \<open>Common types\<close>

text \<open>
  Go byte slices are lists of 8-bit words; a nil slice and an empty slice are both
  \<open>[]\<close> (the code only uses \<open>len\<close> and \<open>bytes.Equal\<close> on them, which do not
  tell them apart). A Go panic and a returned \<open>error\<close> are both values of \<open>error\<close>.
\<close>

type_synonym byte = "8 word"

datatype error = Panic string | Err string

section \<open>Jet coordinator: circleXOR\<close>

text \<open>
  \<^verbatim>\<open>
  func circleXOR(value, src []byte) []byte {
      result := make([]byte, len(value))
      srcLen := len(src)
      for i := range result {
          result[i] = value[i] ^ src[i%srcLen]
      }
      return result
  }
  \<close>
  The loop runs over the indices of \<open>result\<close>; \<open>i % srcLen\<close> panics when
  \<open>srcLen\<close> is zero, which happens only if the loop body runs at all.
\<close>

fun circleXOR_loop :: "byte list \<Rightarrow> byte list \<Rightarrow> nat list \<Rightarrow> byte list \<Rightarrow> error + byte list" where
  "circleXOR_loop val src [] result = Inr result"
| "circleXOR_loop val src (i # idxs) result =
     (if length src = 0 then Inl (Panic ''integer divide by zero'')
      else circleXOR_loop val src idxs (result[i := (val ! i) XOR (src ! (i mod length src))]))"

definition circleXOR :: "byte list \<Rightarrow> byte list \<Rightarrow> error + byte list" where
  "circleXOR val src =
     circleXOR_loop val src [0..<length val] (replicate (length val) 0)"

section \<open>Jet coordinator: role selection\<close>

text \<open>
  Package \<open>jetcoordinator\<close>. \<open>core.RecordRef\<close> is a byte array, \<open>core.PulseNumber\<close> a
  32-bit unsigned integer. Of \<open>core.Node\<close> the code reads \<open>ID()\<close> and \<open>ShortID()\<close>;
  of \<open>core.RecordID\<close> it reads \<open>Pulse()\<close> and \<open>Hash()\<close>; of \<open>core.Pulse\<close> the
  \<open>PulseNumber\<close> and the \<open>Entropy\<close>.
\<close>

type_synonym RecordRef = "byte list"
type_synonym PulseNumber = "32 word"
type_synonym ShortNodeID = "32 word"

datatype StaticRole =
  StaticRoleUnknown | StaticRoleVirtual | StaticRoleHeavyMaterial | StaticRoleLightMaterial

datatype DynamicRole =
  DynamicRoleUndefined
  | DynamicRoleVirtualExecutor
  | DynamicRoleVirtualValidator
  | DynamicRoleLightExecutor
  | DynamicRoleLightValidator
  | DynamicRoleHeavyExecutor

record Node =
  ID :: RecordRef
  ShortID :: ShortNodeID

record RecordID =
  Pulse :: PulseNumber
  Hash :: "byte list"

record PulseRec =
  PulseNumber :: PulseNumber
  Entropy :: "byte list"

text \<open>
  The coordinator's injected collaborators, none of which is among the sources, are
  parameters: \<open>NodeStorage\<close> is \<open>NodeStorage.GetActiveNodesByRole\<close>, \<open>PulseStorage\<close>
  is \<open>PulseStorage.Current\<close>, \<open>PulseTracker\<close> is \<open>PulseTracker.GetPulse\<close> (its
  \<open>.Pulse\<close>), \<open>JetStorage\<close> is \<open>JetStorage.GetJetTree\<close> with the tree given by its
  \<open>Find\<close>, \<open>JetPrefix\<close> is the prefix returned by \<open>jet.Jet\<close>,
  \<open>SelectByEntropy\<close> is \<open>entropy.SelectByEntropy\<close> applied to the coordinator's
  \<open>PlatformCryptographyScheme\<close>, and \<open>PulseNumberJet\<close> is the constant
  \<open>core.PulseNumberJet\<close>.
\<close>

record JetCoordinator =
  NodeStorage :: "PulseNumber \<Rightarrow> StaticRole \<Rightarrow> error + Node list"
  PulseStorage :: "error + PulseRec"
  PulseTracker :: "PulseNumber \<Rightarrow> error + PulseRec"
  JetStorage :: "PulseNumber \<Rightarrow> error + (RecordID \<Rightarrow> RecordID)"
  JetPrefix :: "RecordID \<Rightarrow> byte list"
  SelectByEntropy :: "byte list \<Rightarrow> RecordRef list \<Rightarrow> nat \<Rightarrow> error + RecordRef list"
  PulseNumberJet :: PulseNumber

definition VirtualValidatorCount :: nat where "VirtualValidatorCount = 3"
definition MaterialValidatorCount :: nat where "MaterialValidatorCount = 3"
definition VirtualExecutorCount :: nat where "VirtualExecutorCount = 1"
definition MaterialExecutorCount :: nat where "MaterialExecutorCount = 1"

text \<open>\<open>errors.Wrap\<close> and \<open>errors.Wrapf\<close> prefix the message of an error; a panic passes.\<close>

fun Wrap :: "error \<Rightarrow> string \<Rightarrow> error" where
  "Wrap (Err m) msg = Err (msg @ '': '' @ m)"
| "Wrap (Panic m) msg = Panic m"

definition entropy :: "JetCoordinator \<Rightarrow> PulseNumber \<Rightarrow> error + byte list" where
  "entropy jc pulse =
     (case PulseStorage jc of
        Inl err \<Rightarrow> Inl (Wrap err ''failed to get current pulse'')
      | Inr current \<Rightarrow>
          if PulseNumber current = pulse then Inr (Entropy current)
          else (case PulseTracker jc pulse of
                  Inl err \<Rightarrow> Inl (Wrap err ''failed to fetch pulse data for pulse'')
                | Inr older \<Rightarrow> Inr (Entropy older)))"

text \<open>
  \<open>getRefs\<close> sorts the candidates stably by \<open>bytes.Compare\<close> of their IDs (the
  lexicographic order of the unsigned bytes), takes their IDs and draws.
\<close>

definition getRefs ::
  "(byte list \<Rightarrow> RecordRef list \<Rightarrow> nat \<Rightarrow> error + RecordRef list) \<Rightarrow>
     byte list \<Rightarrow> Node list \<Rightarrow> nat \<Rightarrow> error + RecordRef list" where
  "getRefs scheme e vals count =
     (let sorted_vals = sort_key (\<lambda>v. map unat (ID v)) vals;
          inp = map ID sorted_vals
      in case scheme e inp count of
           Inl err \<Rightarrow> Inl err
         | Inr res \<Rightarrow> Inr res)"

definition virtualsForObject ::
  "JetCoordinator \<Rightarrow> RecordID \<Rightarrow> PulseNumber \<Rightarrow> nat \<Rightarrow> error + RecordRef list" where
  "virtualsForObject jc objID pulse count =
     (case NodeStorage jc pulse StaticRoleVirtual of
        Inl err \<Rightarrow> Inl (Wrap err ''failed to fetch active virtual nodes for pulse'')
      | Inr candidates \<Rightarrow>
          if length candidates = 0 then Inl (Err ''no active virtual nodes for pulse'')
          else (case entropy jc pulse of
                  Inl err \<Rightarrow> Inl (Wrap err ''failed to fetch entropy for pulse'')
                | Inr ent \<Rightarrow>
                    (case circleXOR ent (Hash objID) of
                       Inl p \<Rightarrow> Inl p
                     | Inr mix \<Rightarrow> getRefs (SelectByEntropy jc) mix candidates count)))"

definition lightMaterialsForJet ::
  "JetCoordinator \<Rightarrow> RecordID \<Rightarrow> PulseNumber \<Rightarrow> nat \<Rightarrow> error + RecordRef list" where
  "lightMaterialsForJet jc jetID pulse count =
     (let prefix = JetPrefix jc jetID
      in case NodeStorage jc pulse StaticRoleLightMaterial of
        Inl err \<Rightarrow> Inl (Wrap err ''failed to fetch active light nodes for pulse'')
      | Inr candidates \<Rightarrow>
          if length candidates = 0 then Inl (Err ''no active light nodes for pulse'')
          else (case entropy jc pulse of
                  Inl err \<Rightarrow> Inl (Wrap err ''failed to fetch entropy for pulse'')
                | Inr ent \<Rightarrow>
                    (case circleXOR ent prefix of
                       Inl p \<Rightarrow> Inl p
                     | Inr mix \<Rightarrow> getRefs (SelectByEntropy jc) mix candidates count)))"

text \<open>\<open>&nodes[0]\<close> panics on an empty slice, \<open>nodes[k:]\<close> on a slice shorter than \<open>k\<close>.\<close>

definition first_node :: "RecordRef list \<Rightarrow> error + RecordRef" where
  "first_node nodes =
     (case nodes of [] \<Rightarrow> Inl (Panic ''index out of range'') | n # _ \<Rightarrow> Inr n)"

definition slice_from :: "nat \<Rightarrow> RecordRef list \<Rightarrow> error + RecordRef list" where
  "slice_from k nodes =
     (if length nodes < k then Inl (Panic ''slice bounds out of range'') else Inr (drop k nodes))"

definition VirtualExecutorForObject ::
  "JetCoordinator \<Rightarrow> RecordID \<Rightarrow> PulseNumber \<Rightarrow> error + RecordRef" where
  "VirtualExecutorForObject jc objID pulse =
     (case virtualsForObject jc objID pulse VirtualExecutorCount of
        Inl err \<Rightarrow> Inl err
      | Inr nodes \<Rightarrow> first_node nodes)"

definition VirtualValidatorsForObject ::
  "JetCoordinator \<Rightarrow> RecordID \<Rightarrow> PulseNumber \<Rightarrow> error + RecordRef list" where
  "VirtualValidatorsForObject jc objID pulse =
     (case virtualsForObject jc objID pulse (VirtualValidatorCount + VirtualExecutorCount) of
        Inl err \<Rightarrow> Inl err
      | Inr nodes \<Rightarrow> slice_from VirtualExecutorCount nodes)"

definition LightExecutorForJet ::
  "JetCoordinator \<Rightarrow> RecordID \<Rightarrow> PulseNumber \<Rightarrow> error + RecordRef" where
  "LightExecutorForJet jc jetID pulse =
     (case lightMaterialsForJet jc jetID pulse MaterialExecutorCount of
        Inl err \<Rightarrow> Inl err
      | Inr nodes \<Rightarrow> first_node nodes)"

definition LightValidatorsForJet ::
  "JetCoordinator \<Rightarrow> RecordID \<Rightarrow> PulseNumber \<Rightarrow> error + RecordRef list" where
  "LightValidatorsForJet jc jetID pulse =
     (case lightMaterialsForJet jc jetID pulse (MaterialValidatorCount + MaterialExecutorCount) of
        Inl err \<Rightarrow> Inl err
      | Inr nodes \<Rightarrow> slice_from MaterialExecutorCount nodes)"

definition LightExecutorForObject ::
  "JetCoordinator \<Rightarrow> RecordID \<Rightarrow> PulseNumber \<Rightarrow> error + RecordRef" where
  "LightExecutorForObject jc objID pulse =
     (case JetStorage jc pulse of
        Inl err \<Rightarrow> Inl (Wrap err ''failed to fetch jet tree'')
      | Inr tree \<Rightarrow> LightExecutorForJet jc (tree objID) pulse)"

definition LightValidatorsForObject ::
  "JetCoordinator \<Rightarrow> RecordID \<Rightarrow> PulseNumber \<Rightarrow> error + RecordRef list" where
  "LightValidatorsForObject jc objID pulse =
     (case JetStorage jc pulse of
        Inl err \<Rightarrow> Inl (Wrap err ''failed to fetch jet tree for pulse'')
      | Inr tree \<Rightarrow> LightValidatorsForJet jc (tree objID) pulse)"

definition Heavy :: "JetCoordinator \<Rightarrow> PulseNumber \<Rightarrow> error + RecordRef" where
  "Heavy jc pulse =
     (case NodeStorage jc pulse StaticRoleHeavyMaterial of
        Inl err \<Rightarrow> Inl (Wrap err ''failed to fetch active heavy nodes for pulse'')
      | Inr candidates \<Rightarrow>
          if length candidates = 0 then Inl (Err ''no active heavy nodes for pulse'')
          else (case entropy jc pulse of
                  Inl err \<Rightarrow> Inl (Wrap err ''failed to fetch entropy for pulse'')
                | Inr ent \<Rightarrow>
                    (case getRefs (SelectByEntropy jc) ent candidates 1 of
                       Inl err \<Rightarrow> Inl err
                     | Inr nodes \<Rightarrow> first_node nodes)))"

text \<open>
  \<open>QueryRole\<close> switches on the role and panics with "unexpected role" on any other
  value, of which \<open>DynamicRoleUndefined\<close> is the one the sources name.
\<close>

definition singleton_ref :: "error + RecordRef \<Rightarrow> error + RecordRef list" where
  "singleton_ref r = (case r of Inl err \<Rightarrow> Inl err | Inr node \<Rightarrow> Inr [node])"

fun QueryRole ::
  "JetCoordinator \<Rightarrow> DynamicRole \<Rightarrow> RecordID \<Rightarrow> PulseNumber \<Rightarrow> error + RecordRef list" where
  "QueryRole jc DynamicRoleVirtualExecutor objID pulse =
     singleton_ref (VirtualExecutorForObject jc objID pulse)"
| "QueryRole jc DynamicRoleVirtualValidator objID pulse =
     VirtualValidatorsForObject jc objID pulse"
| "QueryRole jc DynamicRoleLightExecutor objID pulse =
     (if Pulse objID = PulseNumberJet jc
      then singleton_ref (LightExecutorForJet jc objID pulse)
      else singleton_ref (LightExecutorForObject jc objID pulse))"
| "QueryRole jc DynamicRoleLightValidator objID pulse =
     LightValidatorsForObject jc objID pulse"
| "QueryRole jc DynamicRoleHeavyExecutor objID pulse =
     singleton_ref (Heavy jc pulse)"
| "QueryRole jc DynamicRoleUndefined objID pulse = Inl (Panic ''unexpected role'')"

text \<open>The loop of \<open>IsAuthorized\<close> over the nodes, returning at the first match.\<close>

fun IsAuthorized_loop :: "RecordRef list \<Rightarrow> RecordRef \<Rightarrow> bool" where
  "IsAuthorized_loop [] node = False"
| "IsAuthorized_loop (n # ns) node = (if n = node then True else IsAuthorized_loop ns node)"

definition IsAuthorized ::
  "JetCoordinator \<Rightarrow> DynamicRole \<Rightarrow> RecordID \<Rightarrow> PulseNumber \<Rightarrow> RecordRef \<Rightarrow> error + bool" where
  "IsAuthorized jc role obj pulse node =
     (case QueryRole jc role obj pulse of
        Inl err \<Rightarrow> Inl err
      | Inr nodes \<Rightarrow> Inr (IsAuthorized_loop nodes node))"

text \<open>
  Modelled from the spec: \<open>entropy.SelectByEntropy\<close> (package \<open>utils/entropy\<close>) is not
  among the sources. The spec has it "deterministically draw \<open>n\<close> distinct candidates
  using \<open>mix\<close> as entropy", by "hash-based weighted sampling supplied by the crypto
  scheme". Here the scheme is a hash of the entropy and a candidate's position, the
  candidates are ranked by it, and the first \<open>n\<close> are drawn; \<open>n\<close> distinct candidates
  cannot be drawn from fewer than \<open>n\<close>, which is an error.
\<close>

definition SelectByEntropy_spec ::
  "(byte list \<Rightarrow> nat \<Rightarrow> nat) \<Rightarrow> byte list \<Rightarrow> RecordRef list \<Rightarrow> nat \<Rightarrow> error + RecordRef list" where
  "SelectByEntropy_spec scheme e vals count =
     (if length vals < count then Inl (Err ''count value should be less than values size'')
      else Inr (map (\<lambda>i. vals ! i) (take count (sort_key (scheme e) [0..<length vals]))))"

text \<open>
  What the role selection needs of the draw: from distinct candidates, a draw of \<open>n\<close>
  (at most their number) gives \<open>n\<close> distinct candidates, and a draw of fewer gives the
  first slots of it.
\<close>

definition draws_distinct ::
  "(byte list \<Rightarrow> RecordRef list \<Rightarrow> nat \<Rightarrow> error + RecordRef list) \<Rightarrow> bool" where
  "draws_distinct sel \<longleftrightarrow>
     (\<forall>e vs n. distinct vs \<and> n \<le> length vs \<longrightarrow>
        (\<exists>r. sel e vs n = Inr r \<and> length r = n \<and> distinct r \<and> set r \<subseteq> set vs \<and>
             (\<forall>m \<le> n. sel e vs m = Inr (take m r))))"


text \<open>
  A concrete coordinator for the closed instances below: the current pulse is 7 with
  entropy \<open>[1, 2, 3, 4]\<close>, the given nodes are the active virtual nodes, no light or
  heavy nodes and no jet tree are known.
\<close>

definition example_node :: "byte \<Rightarrow> Node" where
  "example_node b = \<lparr>ID = [b, b], ShortID = 0\<rparr>"

definition example_coordinator :: "Node list \<Rightarrow> JetCoordinator" where
  "example_coordinator virtuals =
     \<lparr>NodeStorage = (\<lambda>p r. if r = StaticRoleVirtual then Inr virtuals else Inl (Err ''no nodes'')),
      PulseStorage = Inr \<lparr>PulseNumber = 7, Entropy = [1, 2, 3, 4]\<rparr>,
      PulseTracker = (\<lambda>p. Inl (Err ''unknown pulse'')),
      JetStorage = (\<lambda>p. Inl (Err ''no jet tree'')),
      JetPrefix = (\<lambda>j. []),
      SelectByEntropy = SelectByEntropy_spec (\<lambda>e i. (unat (sum_list e) + 3 * i) mod 5),
      PulseNumberJet = 1\<rparr>"

definition example_object :: RecordID where
  "example_object = \<lparr>Pulse = 7, Hash = [9, 8]\<rparr>"


section \<open>DHT: data\<close>

text \<open>
  Package \<open>host\<close>. A \<open>node.Node\<close> is the hash of its ID and its address; a
  \<open>routing.RouteNode\<close> wraps one. A \<open>routing.HashTable\<close> has its origin and the
  buckets, each with the least recently seen contact at its head. Maps keyed by
  \<open>ID.HashString()\<close> are partial functions on strings; reading a missing key of a Go
  map gives the zero value (\<open>false\<close>, a nil slice).
\<close>

record HostNode =
  HostID :: "byte list"
  HostAddress :: string

record HashTable =
  Origin :: HostNode
  RoutingTable :: "HostNode list list"

record AuthInfo =
  SentKeys :: "string \<rightharpoonup> byte list"
  ReceivedKeys :: "string \<rightharpoonup> byte list"
  authenticatedNodes :: "string \<rightharpoonup> bool"

text \<open>Durations are \<open>int64\<close> nanoseconds; a point in time is a number of nanoseconds.\<close>

record Options =
  ExpirationTime :: "64 word"
  PingTimeout :: "64 word"

datatype CommandType = StartRelay | StopRelay | BeginAuth | RevokeAuth | UnknownCommand

datatype RelayState = Unknown | Started | Stopped | Error | NoAuth

datatype RequestData =
  RequestRelay CommandType
  | RequestAuth CommandType
  | RequestCheckOrigin
  | RequestOther

datatype ResponseData =
  ResponseRelay RelayState
  | ResponseAuth bool "byte list"
  | ResponseCheckOrigin "byte list"

record Packet =
  Sender :: HostNode
  Receiver :: HostNode
  RequestID :: "64 word"
  Data :: RequestData

text \<open>
  The state of the local node. \<open>transport\<close> is the list of responses handed to
  \<open>transport.SendResponse\<close>, oldest first, each with the request ID, the receiver set
  by the packet builder and the response data; an error of \<open>SendResponse\<close> is only
  logged. \<open>store\<close> keeps the value of each key, \<open>relay\<close> the clients relayed for,
  \<open>proxy\<close> the addresses of the proxies.
\<close>

record DHT =
  tables :: "HashTable list"
  options :: Options
  store :: "byte list \<rightharpoonup> byte list"
  relay :: "HostNode list"
  proxy :: "string list"
  auth :: AuthInfo
  transport :: "(64 word \<times> HostNode \<times> ResponseData) list"

datatype IterateType = IterateStore | IterateBootstrap | IterateFindNode | IterateFindValue

text \<open>
  What the handlers call in packages that are not among the sources (\<open>id\<close>,
  \<open>routing\<close>, \<open>relay\<close>, \<open>base58\<close>) are parameters, and so is the outcome of
  \<open>iterate\<close>, the query loop over the network, given by its effect on the routing
  tables and its three results.
\<close>

record Env =
  HashString :: "byte list \<Rightarrow> string"
  base58_Decode :: "string \<Rightarrow> byte list"
  GetBucketIndexFromDifferingBit :: "byte list \<Rightarrow> byte list \<Rightarrow> nat"
  GetAllNodesInBucketCloserThan :: "HashTable \<Rightarrow> nat \<Rightarrow> byte list \<Rightarrow> byte list list"
  GetClosestContacts :: "HashTable \<Rightarrow> nat \<Rightarrow> byte list \<Rightarrow> HostNode list \<Rightarrow> HostNode list"
  AddClient :: "HostNode list \<Rightarrow> HostNode \<Rightarrow> HostNode list \<times> error option"
  RemoveClient :: "HostNode list \<Rightarrow> HostNode \<Rightarrow> HostNode list \<times> error option"
  GetNextProxyAddress :: "string list \<Rightarrow> string \<times> string list"
  iterate :: "HashTable list \<Rightarrow> nat \<Rightarrow> IterateType \<Rightarrow> byte list \<Rightarrow> byte list option \<Rightarrow>
                HashTable list \<times> byte list option \<times> HostNode list \<times> error option"

text \<open>
  Modelled from the spec: the constant \<open>routing.MaxContactsInBucket\<close>, "K =
  MaxContactsInBucket = 20".
\<close>

definition MaxContactsInBucket :: nat where "MaxContactsInBucket = 20"

definition lookup_bool :: "(string \<rightharpoonup> bool) \<Rightarrow> string \<Rightarrow> bool" where
  "lookup_bool m k = (case m k of None \<Rightarrow> False | Some b \<Rightarrow> b)"

definition lookup_bytes :: "(string \<rightharpoonup> byte list) \<Rightarrow> string \<Rightarrow> byte list" where
  "lookup_bytes m k = (case m k of None \<Rightarrow> [] | Some v \<Rightarrow> v)"

text \<open>
  The context of a call selects one of the node's tables by its index;
  \<open>dht.tables[htIdx]\<close> panics out of range.
\<close>

definition htFromCtx :: "DHT \<Rightarrow> nat \<Rightarrow> error + HashTable" where
  "htFromCtx dht ctx =
     (if ctx < length (tables dht) then Inr (tables dht ! ctx)
      else Inl (Panic ''index out of range''))"

definition SendResponse :: "DHT \<Rightarrow> 64 word \<Rightarrow> HostNode \<Rightarrow> ResponseData \<Rightarrow> DHT" where
  "SendResponse dht requestID receiver response =
     dht\<lparr>transport := transport dht @ [(requestID, receiver, response)]\<rparr>"

section \<open>DHT: expiration time\<close>





section \<open>DHT: lookups\<close>

text \<open>
  \<open>Get\<close> and \<open>FindNode\<close> return a result, a flag and an error; the model adds the
  state they leave. A nil value or node is \<open>None\<close>.
\<close>

definition Get ::
  "Env \<Rightarrow> DHT \<Rightarrow> nat \<Rightarrow> string \<Rightarrow> DHT \<times> byte list option \<times> bool \<times> error option" where
  "Get env dht ctx key =
     (let keyBytes = base58_Decode env key
      in if length keyBytes \<noteq> MaxContactsInBucket
         then (dht, None, False, Some (Err ''invalid key''))
         else (case store dht keyBytes of
                 Some v \<Rightarrow> (dht, Some v, True, None)
               | None \<Rightarrow>
                   (case iterate env (tables dht) ctx IterateFindValue keyBytes None of
                      (tables', val, closest, Some err) \<Rightarrow>
                        (dht\<lparr>tables := tables'\<rparr>, None, False, Some err)
                    | (tables', val, closest, None) \<Rightarrow>
                        (dht\<lparr>tables := tables'\<rparr>, val, val \<noteq> None, None))))"

text \<open>The loop of \<open>FindNode\<close> over \<open>closest\<close>: the last node with the key's hash.\<close>

fun find_target :: "HostNode list \<Rightarrow> byte list \<Rightarrow> HostNode option \<times> bool \<Rightarrow> HostNode option \<times> bool" where
  "find_target [] keyBytes acc = acc"
| "find_target (c # cs) keyBytes acc =
     find_target cs keyBytes (if HostID c = keyBytes then (Some c, True) else acc)"

definition FindNode ::
  "Env \<Rightarrow> DHT \<Rightarrow> nat \<Rightarrow> string \<Rightarrow> error + DHT \<times> HostNode option \<times> bool \<times> error option" where
  "FindNode env dht ctx key =
     (let keyBytes = base58_Decode env key
      in if length keyBytes \<noteq> MaxContactsInBucket
         then Inr (dht, None, False, Some (Err ''invalid key''))
         else (case htFromCtx dht ctx of
                 Inl e \<Rightarrow> Inl e
               | Inr ht \<Rightarrow>
                   if HostID (Origin ht) = keyBytes then Inr (dht, Some (Origin ht), True, None)
                   else (let routeSet = GetClosestContacts env ht 1 keyBytes []
                         in if length routeSet > 0 \<and> HostID (hd routeSet) = keyBytes
                            then Inr (dht, Some (hd routeSet), True, None)
                            else if length (proxy dht) > 0
                            then (case GetNextProxyAddress env (proxy dht) of
                                    (address, proxy') \<Rightarrow>
                                      Inr (dht\<lparr>proxy := proxy'\<rparr>,
                                           Some \<lparr>HostID = keyBytes, HostAddress = address\<rparr>,
                                           True, None))
                            else (case iterate env (tables dht) ctx IterateFindNode keyBytes None of
                                    (tables', val, closest, Some err) \<Rightarrow>
                                      Inr (dht\<lparr>tables := tables'\<rparr>, None, False, Some err)
                                  | (tables', val, closest, None) \<Rightarrow>
                                      (case find_target closest keyBytes (None, False) of
                                         (targetNode, exists) \<Rightarrow>
                                           Inr (dht\<lparr>tables := tables'\<rparr>, targetNode, exists, None))))))"

section \<open>DHT: routing table insertion\<close>

text \<open>
  Modelled from the spec: \<open>HashTable.DoesNodeExistInBucket\<close> and
  \<open>HashTable.MarkNodeAsSeen\<close> of package \<open>routing\<close> are not among the sources. The
  spec: "If the contact exists in its bucket, mark it fresh (move to tail)."
\<close>

definition DoesNodeExistInBucket :: "HashTable \<Rightarrow> nat \<Rightarrow> byte list \<Rightarrow> bool" where
  "DoesNodeExistInBucket ht index h = (\<exists>n \<in> set (RoutingTable ht ! index). HostID n = h)"

definition MarkNodeAsSeen :: "HashTable \<Rightarrow> nat \<Rightarrow> byte list \<Rightarrow> HashTable" where
  "MarkNodeAsSeen ht index h =
     (let bucket = RoutingTable ht ! index
      in ht\<lparr>RoutingTable := (RoutingTable ht)
            [index := filter (\<lambda>n. HostID n \<noteq> h) bucket @ filter (\<lambda>n. HostID n = h) bucket]\<rparr>)"

text \<open>
  The ping of \<open>addNode\<close> to the head of a full bucket: \<open>SendRequest\<close> fails, or the
  response comes before \<open>PingTimeout\<close>, or \<open>time.After\<close> fires first. The outcome is a
  function of the node pinged.
\<close>

datatype PingResult = SendFailed | Responded | TimedOut

definition addNode ::
  "Env \<Rightarrow> (HostNode \<Rightarrow> PingResult) \<Rightarrow> DHT \<Rightarrow> nat \<Rightarrow> HostNode \<Rightarrow> error + DHT" where
  "addNode env ping dht ctx node =
     (case htFromCtx dht ctx of
        Inl e \<Rightarrow> Inl e
      | Inr ht \<Rightarrow>
          (let index = GetBucketIndexFromDifferingBit env (HostID (Origin ht)) (HostID node)
           in if \<not> index < length (RoutingTable ht) then Inl (Panic ''index out of range'')
              else if DoesNodeExistInBucket ht index (HostID node)
              then Inr (dht\<lparr>tables := (tables dht)[ctx := MarkNodeAsSeen ht index (HostID node)]\<rparr>)
              else (let bucket = RoutingTable ht ! index
                    in if length bucket = MaxContactsInBucket
                       then (case ping (bucket ! 0) of
                               SendFailed \<Rightarrow>
                                 Inr (dht\<lparr>tables := (tables dht)
                                   [ctx := ht\<lparr>RoutingTable := (RoutingTable ht)
                                      [index := tl (bucket @ [node])]\<rparr>]\<rparr>)
                             | Responded \<Rightarrow> Inr dht
                             | TimedOut \<Rightarrow>
                                 Inr (dht\<lparr>tables := (tables dht)
                                   [ctx := ht\<lparr>RoutingTable := (RoutingTable ht)
                                      [index := tl bucket @ [node]]\<rparr>]\<rparr>))
                       else Inr (dht\<lparr>tables := (tables dht)
                                   [ctx := ht\<lparr>RoutingTable := (RoutingTable ht)
                                      [index := bucket @ [node]]\<rparr>]\<rparr>))))"


section \<open>DHT: relay and authentication handlers\<close>

text \<open>The \<open>switch data.Command\<close> of \<open>processRelay\<close>: the relay's new clients, its error, the state.\<close>

definition relay_command ::
  "Env \<Rightarrow> DHT \<Rightarrow> CommandType \<Rightarrow> HostNode \<Rightarrow> DHT \<times> error option \<times> RelayState" where
  "relay_command env dht command sender =
     (case command of
        StartRelay \<Rightarrow>
          (case AddClient env (relay dht) sender of
             (clients, err) \<Rightarrow> (dht\<lparr>relay := clients\<rparr>, err, Started))
      | StopRelay \<Rightarrow>
          (case RemoveClient env (relay dht) sender of
             (clients, err) \<Rightarrow> (dht\<lparr>relay := clients\<rparr>, err, Stopped))
      | _ \<Rightarrow> (dht, None, Unknown))"

definition processRelay ::
  "Env \<Rightarrow> (HostNode \<Rightarrow> PingResult) \<Rightarrow> DHT \<Rightarrow> nat \<Rightarrow> Packet \<Rightarrow> error + DHT" where
  "processRelay env ping dht ctx msg =
     (if \<not> lookup_bool (authenticatedNodes (auth dht)) (HashString env (HostID (Sender msg)))
      then Inr (SendResponse dht (RequestID msg) (Sender msg) (ResponseRelay NoAuth))
      else (case Data msg of
              RequestRelay command \<Rightarrow>
                (case addNode env ping dht ctx (Sender msg) of
                   Inl e \<Rightarrow> Inl e
                 | Inr dht1 \<Rightarrow>
                     (case relay_command env dht1 command (Sender msg) of
                        (dht2, err, state) \<Rightarrow>
                          Inr (SendResponse dht2 (RequestID msg) (Sender msg)
                                 (ResponseRelay (if err \<noteq> None then Error else state)))))
            | _ \<Rightarrow> Inl (Panic ''interface conversion'')))"

text \<open>
  The handlers of the handshake touch \<open>dht.auth\<close> only, so their cores are functions
  on \<open>AuthInfo\<close>. \<open>bytes.Equal\<close> is equality of the byte lists.
\<close>

definition handleCheckOriginResponse :: "AuthInfo \<Rightarrow> byte list \<Rightarrow> string \<Rightarrow> AuthInfo" where
  "handleCheckOriginResponse ai AuthUniqueKey targetID =
     (if AuthUniqueKey = lookup_bytes (SentKeys ai) targetID
      then ai\<lparr>SentKeys := (SentKeys ai)(targetID := None),
              authenticatedNodes := (authenticatedNodes ai)(targetID \<mapsto> True)\<rparr>
      else ai)"

definition handleAuthResponse ::
  "AuthInfo \<Rightarrow> bool \<Rightarrow> byte list \<Rightarrow> string \<Rightarrow> AuthInfo \<times> error option" where
  "handleAuthResponse ai Success AuthUniqueKey target =
     (if length AuthUniqueKey \<noteq> 0 \<and> Success
      then (ai\<lparr>ReceivedKeys := (ReceivedKeys ai)(target \<mapsto> AuthUniqueKey)\<rparr>, None)
      else if Success \<and> length AuthUniqueKey = 0 then (ai, None)
      else if \<not> Success then (ai, Some (Err ''authentication unsuccessful''))
      else if length AuthUniqueKey = 0 then (ai, Some (Err ''wrong auth unique key received''))
      else (ai, None))"

definition processCheckOriginRequest :: "Env \<Rightarrow> DHT \<Rightarrow> nat \<Rightarrow> Packet \<Rightarrow> DHT" where
  "processCheckOriginRequest env dht ctx msg =
     (case ReceivedKeys (auth dht) (HashString env (HostID (Sender msg))) of
        Some key \<Rightarrow> SendResponse dht (RequestID msg) (Sender msg) (ResponseCheckOrigin key)
      | None \<Rightarrow> dht)"

text \<open>
  What becomes of a request handed to \<open>transport.SendRequest\<close>: the send fails, the
  future's channel is closed, \<open>PacketTimeout\<close> passes, or a response arrives.
\<close>

datatype RequestOutcome = SendError | ChannelClosed | Timeout | Response ResponseData

definition CheckOriginRequest ::
  "Env \<Rightarrow> RequestOutcome \<Rightarrow> DHT \<Rightarrow> nat \<Rightarrow> string \<Rightarrow> error + DHT \<times> error option" where
  "CheckOriginRequest env outcome dht ctx targetID =
     (case FindNode env dht ctx targetID of
        Inl e \<Rightarrow> Inl e
      | Inr (dht1, targetNode, exist, Some err) \<Rightarrow> Inr (dht1, Some err)
      | Inr (dht1, targetNode, exist, None) \<Rightarrow>
          if \<not> exist then Inr (dht1, Some (Err ''target for relay request not found''))
          else (case outcome of
                  SendError \<Rightarrow> Inr (dht1, Some (Err ''send request failed''))
                | ChannelClosed \<Rightarrow> Inr (dht1, Some (Err ''chanel closed unexpectedly''))
                | Timeout \<Rightarrow> Inr (dht1, Some (Err ''timeout''))
                | Response (ResponseCheckOrigin key) \<Rightarrow>
                    Inr (dht1\<lparr>auth := handleCheckOriginResponse (auth dht1) key targetID\<rparr>, None)
                | Response _ \<Rightarrow> Inl (Panic ''interface conversion'')))"

text \<open>
  \<open>key := make([]byte, 512)\<close> and \<open>rand.Read(key)\<close>: the random source fails
  (\<open>None\<close>) or gives the byte at each of the 512 positions.
\<close>

definition new_auth_key :: "(nat \<Rightarrow> byte) \<Rightarrow> byte list" where
  "new_auth_key rnd = map rnd [0..<512]"

text \<open>
  The \<open>BeginAuth\<close> case up to its response: the new \<open>AuthInfo\<close> and the response, if
  any; the last component tells whether \<open>CheckOriginRequest\<close> follows.
\<close>

definition begin_auth ::
  "AuthInfo \<Rightarrow> (nat \<Rightarrow> byte) option \<Rightarrow> string \<Rightarrow> AuthInfo \<times> ResponseData option \<times> bool" where
  "begin_auth ai rnd sender =
     (if lookup_bool (authenticatedNodes ai) sender
      then (ai, Some (ResponseAuth False []), False)
      else (case rnd of
              None \<Rightarrow> (ai, None, False)
            | Some r \<Rightarrow>
                (let key = new_auth_key r
                 in (ai\<lparr>SentKeys := (SentKeys ai)(sender \<mapsto> key)\<rparr>,
                     Some (ResponseAuth True key), True))))"

definition revoke_auth :: "AuthInfo \<Rightarrow> string \<Rightarrow> AuthInfo" where
  "revoke_auth ai sender = ai\<lparr>authenticatedNodes := (authenticatedNodes ai)(sender := None)\<rparr>"

definition respond :: "DHT \<Rightarrow> Packet \<Rightarrow> ResponseData option \<Rightarrow> DHT" where
  "respond dht msg response =
     (case response of
        None \<Rightarrow> dht
      | Some r \<Rightarrow> SendResponse dht (RequestID msg) (Sender msg) r)"

definition processAuthentication ::
  "Env \<Rightarrow> (nat \<Rightarrow> byte) option \<Rightarrow> RequestOutcome \<Rightarrow> DHT \<Rightarrow> nat \<Rightarrow> Packet \<Rightarrow> error + DHT" where
  "processAuthentication env rnd outcome dht ctx msg =
     (case Data msg of
        RequestAuth command \<Rightarrow>
          (case command of
             BeginAuth \<Rightarrow>
               (case begin_auth (auth dht) rnd (HashString env (HostID (Sender msg))) of
                  (ai, response, check) \<Rightarrow>
                    (let dht1 = respond (dht\<lparr>auth := ai\<rparr>) msg response
                     in if check
                        then (case CheckOriginRequest env outcome dht1 ctx
                                     (HashString env (HostID (Sender msg))) of
                                Inl e \<Rightarrow> Inl e
                              | Inr (dht2, err) \<Rightarrow> Inr dht2)
                        else Inr dht1))
           | RevokeAuth \<Rightarrow>
               Inr (respond
                      (dht\<lparr>auth := revoke_auth (auth dht) (HashString env (HostID (Sender msg)))\<rparr>)
                      msg (Some (ResponseAuth True [])))
           | _ \<Rightarrow> Inr dht)
      | _ \<Rightarrow> Inl (Panic ''interface conversion''))"


text \<open>
  A concrete node for the closed instances below: two buckets, the first as given, no
  stored values, relay clients or proxies; peers \<open>A\<close> and \<open>B\<close> have the hashes of
  twenty bytes 1 and 2. Stand-ins for the missing packages: every contact goes to
  bucket 1, a relay client is added once and removed if present.
\<close>

definition example_env :: Env where
  "example_env =
     \<lparr>HashString = (\<lambda>h. if h = replicate 20 1 then ''A'' else if h = replicate 20 2 then ''B'' else ''?''),
      base58_Decode = (\<lambda>s. if s = ''A'' then replicate 20 1 else if s = ''B'' then replicate 20 2 else []),
      GetBucketIndexFromDifferingBit = (\<lambda>a b. 1),
      GetAllNodesInBucketCloserThan = (\<lambda>ht bucket key. []),
      GetClosestContacts = (\<lambda>ht n key excluded. take n (filter (\<lambda>c. HostID c = key) (concat (RoutingTable ht)))),
      AddClient = (\<lambda>clients n. if n \<in> set clients then (clients, Some (Err ''client exists already''))
                                   else (clients @ [n], None)),
      RemoveClient = (\<lambda>clients n. if n \<in> set clients then (removeAll n clients, None)
                                      else (clients, Some (Err ''client not found''))),
      GetNextProxyAddress = (\<lambda>p. (hd p, rotate1 p)),
      iterate = (\<lambda>tabs ctx t target data. (tabs, None, [], None))\<rparr>"

definition example_host :: "byte \<Rightarrow> HostNode" where
  "example_host b = \<lparr>HostID = replicate 20 b, HostAddress = ''10.0.0.1:7900''\<rparr>"

definition example_dht :: "HostNode list \<Rightarrow> (string \<rightharpoonup> bool) \<Rightarrow> DHT" where
  "example_dht bucket authenticated =
     \<lparr>tables = [\<lparr>Origin = example_host 0, RoutingTable = [bucket, []]\<rparr>],
      options = \<lparr>ExpirationTime = 86410000000000, PingTimeout = 1000000000\<rparr>,
      store = Map.empty,
      relay = [],
      proxy = [],
      auth = \<lparr>SentKeys = Map.empty, ReceivedKeys = Map.empty, authenticatedNodes = authenticated\<rparr>,
      transport = []\<rparr>"

definition example_packet :: "byte \<Rightarrow> RequestData \<Rightarrow> Packet" where
  "example_packet b d = \<lparr>Sender = example_host b, Receiver = example_host 0, RequestID = 42, Data = d\<rparr>"


definition example_full_dht :: DHT where
  "example_full_dht =
     \<lparr>tables = [\<lparr>Origin = example_host 0,
                 RoutingTable = [[], map example_host
                   [1, 2, 3, 4, 5, 6, 7, 8, 9, 10, 11, 12, 13, 14, 15, 16, 17, 18, 19, 20]]\<rparr>],
      options = \<lparr>ExpirationTime = 86410000000000, PingTimeout = 1000000000\<rparr>,
      store = Map.empty,
      relay = [],
      proxy = [],
      auth = \<lparr>SentKeys = Map.empty, ReceivedKeys = Map.empty, authenticatedNodes = Map.empty\<rparr>,
      transport = []\<rparr>"

section \<open>Discovery bootstrap\<close>

text \<open>
  Package \<open>bootstrap\<close>. Of the bootstrapper, the node keeper's active nodes, the last
  pulse and the flag \<open>pulsePersisted\<close>, which is set when \<open>bootstrapLock\<close> is closed.
\<close>

record bootstrapper =
  NodeKeeper :: "Node list"
  lastPulse :: PulseNumber
  pulsePersisted :: bool

text \<open>
  What the network and the certificate give to \<open>BootstrapDiscovery\<close>: the discovery
  nodes without the origin (\<open>RemoveOrigin\<close>, not among the sources), the hosts that
  answered in each round of connecting, the pulse another goroutine sets while
  \<open>BootstrapDiscovery\<close> waits for \<open>bootstrapLock\<close> (none: it waits forever), and the
  result of \<open>waitGenesisResults\<close> for the hosts.
\<close>

record BootstrapEnv =
  RemoveOrigin :: "error + string list"
  discoveryHosts :: "nat \<Rightarrow> string list"
  pulseWhileWaiting :: "PulseNumber option"
  genesisResults :: "string list \<Rightarrow> error + Node list \<times> PulseNumber list"

text \<open>
  Modelled from the spec: \<open>NodeKeeper.GetActiveNode\<close>, \<open>GetActiveNodeByShortID\<close> and
  \<open>AddActiveNodes\<close> (interface \<open>network.NodeKeeper\<close>) are not among the sources. The
  spec: the active node set is a "snapshot of nodes validated at a pulse, indexed by
  NodeID and by ShortID".
\<close>

definition GetActiveNode :: "Node list \<Rightarrow> RecordRef \<Rightarrow> Node option" where
  "GetActiveNode active ref = find (\<lambda>n. ID n = ref) active"

definition GetActiveNodeByShortID :: "Node list \<Rightarrow> ShortNodeID \<Rightarrow> Node option" where
  "GetActiveNodeByShortID active sid = find (\<lambda>n. ShortID n = sid) active"

definition AddActiveNodes :: "Node list \<Rightarrow> Node list \<Rightarrow> Node list" where
  "AddActiveNodes active nodes = active @ nodes"

definition SetLastPulse :: "bootstrapper \<Rightarrow> PulseNumber \<Rightarrow> bootstrapper" where
  "SetLastPulse bc number =
     (if \<not> pulsePersisted bc then bc\<lparr>lastPulse := number, pulsePersisted := True\<rparr> else bc)"

definition forceSetLastPulse :: "bootstrapper \<Rightarrow> PulseNumber \<Rightarrow> bootstrapper" where
  "forceSetLastPulse bc number = bc\<lparr>lastPulse := number\<rparr>"

definition checkActiveNode :: "bootstrapper \<Rightarrow> Node \<Rightarrow> error option" where
  "checkActiveNode bc node =
     (case GetActiveNode (NodeKeeper bc) (ID node) of
        Some n \<Rightarrow> Some (Err ''Node ID collision'')
      | None \<Rightarrow>
          (case GetActiveNodeByShortID (NodeKeeper bc) (ShortID node) of
             Some n \<Rightarrow> Some (Err ''Short ID collision'')
           | None \<Rightarrow> None))"

fun calculateLastIgnoredPulse_loop :: "PulseNumber list \<Rightarrow> PulseNumber \<Rightarrow> PulseNumber" where
  "calculateLastIgnoredPulse_loop [] maxLastPulse = maxLastPulse"
| "calculateLastIgnoredPulse_loop (pulse # pulses) maxLastPulse =
     calculateLastIgnoredPulse_loop pulses (if pulse > maxLastPulse then pulse else maxLastPulse)"

definition calculateLastIgnoredPulse :: "bootstrapper \<Rightarrow> PulseNumber list \<Rightarrow> PulseNumber" where
  "calculateLastIgnoredPulse bc lastPulses = calculateLastIgnoredPulse_loop lastPulses (lastPulse bc)"

text \<open>The loop of \<open>BootstrapDiscovery\<close> over the received nodes, returning at the first error.\<close>

fun check_loop :: "bootstrapper \<Rightarrow> Node list \<Rightarrow> error option" where
  "check_loop bc [] = None"
| "check_loop bc (activeNode # rest) =
     (case checkActiveNode bc activeNode of
        Some err \<Rightarrow> Some (Wrap err ''Discovery check of node failed'')
      | None \<Rightarrow> check_loop bc rest)"

text \<open>
  The loop that connects to the discovery nodes runs until a round reaches all of
  them; it need not end.
\<close>

partial_function (option) connect_all :: "(nat \<Rightarrow> string list) \<Rightarrow> nat \<Rightarrow> nat \<Rightarrow> string list option" where
  "connect_all rounds discoveryCount i =
     (if length (rounds i) = discoveryCount then Some (rounds i)
      else connect_all rounds discoveryCount (Suc i))"

text \<open>\<open><-bc.bootstrapLock\<close>: passes once \<open>SetLastPulse\<close> has closed the channel.\<close>

definition wait_bootstrapLock :: "BootstrapEnv \<Rightarrow> bootstrapper \<Rightarrow> bootstrapper option" where
  "wait_bootstrapLock env bc =
     (if pulsePersisted bc then Some bc
      else (case pulseWhileWaiting env of
              None \<Rightarrow> None
            | Some number \<Rightarrow> Some (SetLastPulse bc number)))"

definition BootstrapDiscovery ::
  "BootstrapEnv \<Rightarrow> bootstrapper \<Rightarrow> (bootstrapper \<times> error option) option" where
  "BootstrapDiscovery env bc =
     (case RemoveOrigin env of
        Inl err \<Rightarrow> Some (bc, Some (Wrap err ''Discovery bootstrap failed''))
      | Inr discoveryNodes \<Rightarrow>
          if length discoveryNodes = 0 then Some (bc, None)
          else (case connect_all (discoveryHosts env) (length discoveryNodes) 0 of
                  None \<Rightarrow> None
                | Some hosts \<Rightarrow>
                    (case wait_bootstrapLock env bc of
                       None \<Rightarrow> None
                     | Some bc1 \<Rightarrow>
                         (case genesisResults env hosts of
                            Inl err \<Rightarrow> Some (bc1, Some err)
                          | Inr (activeNodes, lastPulses) \<Rightarrow>
                              (let bc2 = forceSetLastPulse bc1 (calculateLastIgnoredPulse bc1 lastPulses)
                               in case check_loop bc2 activeNodes of
                                    Some err \<Rightarrow> Some (bc2, Some err)
                                  | None \<Rightarrow>
                                      Some (bc2\<lparr>NodeKeeper :=
                                              AddActiveNodes (NodeKeeper bc2) activeNodes\<rparr>,
                                            None))))))"

text \<open>The two collision errors of \<open>checkActiveNode\<close>, as \<open>BootstrapDiscovery\<close> wraps them.\<close>

definition collision_error :: "error \<Rightarrow> bool" where
  "collision_error e \<longleftrightarrow>
     e = Err ''Discovery check of node failed: Node ID collision'' \<or>
     e = Err ''Discovery check of node failed: Short ID collision''"

definition example_bootstrap_env :: BootstrapEnv where
  "example_bootstrap_env =
     \<lparr>RemoveOrigin = Inr [''10.0.0.2:7900'', ''10.0.0.3:7900''],
      discoveryHosts = (\<lambda>i. if i = 0 then [''10.0.0.2:7900''] else [''10.0.0.2:7900'', ''10.0.0.3:7900'']),
      pulseWhileWaiting = Some 65537,
      genesisResults = (\<lambda>hosts. Inr ([\<lparr>ID = [2, 2], ShortID = 11\<rparr>, \<lparr>ID = [3, 3], ShortID = 10\<rparr>],
                                      [65540, 65538]))\<rparr>"

definition example_bootstrapper :: bootstrapper where
  "example_bootstrapper =
     \<lparr>NodeKeeper = [\<lparr>ID = [1, 1], ShortID = 10\<rparr>], lastPulse = 0, pulsePersisted = False\<rparr>"

section \<open>Authentication protocol between nodes\<close>

text \<open>
  The handshake runs between the \<open>AuthInfo\<close> of several nodes, named by the
  \<open>HashString\<close> of their IDs. A message in flight is a request or a response with its
  sender and receiver.
\<close>

datatype Message = Request RequestData | Reply ResponseData

text \<open>
  A history of the handshake, kept beside the state to state what has happened; the
  code has no such record. \<open>Issued b a k\<close>: \<open>b\<close> generated \<open>k\<close> for \<open>a\<close>, stored it
  in \<open>SentKeys[a]\<close> and sent it. \<open>Received a b k\<close>: \<open>a\<close> stored \<open>k\<close> in
  \<open>ReceivedKeys[b]\<close>. \<open>Echoed a b k\<close>: \<open>a\<close> answered the \<open>CheckOrigin\<close> of \<open>b\<close> with
  \<open>k\<close>. \<open>Accepted b a k\<close>: \<open>b\<close> found \<open>k\<close> equal to \<open>SentKeys[a]\<close> and marked \<open>a\<close>
  authenticated.
\<close>

datatype Step =
  Issued string string "byte list"
  | Received string string "byte list"
  | Echoed string string "byte list"
  | Accepted string string "byte list"

record Network =
  node_auth :: "string \<Rightarrow> AuthInfo"
  inflight :: "(string \<times> string \<times> Message) list"
  history :: "Step list"

text \<open>
  What can happen: a node calls \<open>AuthenticationRequest\<close> or \<open>CheckOriginRequest\<close>
  for a target, which sends the request; a message in flight is delivered to its
  receiver (with the random source the receiver would read); a message is lost, or
  its future times out.
\<close>

datatype NetEvent =
  CallAuthenticationRequest string CommandType string
  | CallCheckOriginRequest string string
  | Deliver nat "(nat \<Rightarrow> byte) option"
  | Lose nat

fun issued_step :: "string \<Rightarrow> string \<Rightarrow> ResponseData option \<Rightarrow> bool \<Rightarrow> Step list" where
  "issued_step b a (Some (ResponseAuth Success key)) check =
     (if check then [Issued b a key] else [])"
| "issued_step b a response check = []"

fun reply_of :: "string \<Rightarrow> string \<Rightarrow> ResponseData option \<Rightarrow> (string \<times> string \<times> Message) list" where
  "reply_of b a None = []"
| "reply_of b a (Some r) = [(b, a, Reply r)]"

text \<open>
  The receiver's handler for each message: \<open>processAuthentication\<close> up to its
  response (the \<open>CheckOrigin\<close> request it then sends is a message of its own, so that
  every interleaving of the two nodes is covered), \<open>processCheckOriginRequest\<close>,
  \<open>handleAuthResponse\<close> and \<open>handleCheckOriginResponse\<close>. Relay and other packets
  do not touch \<open>AuthInfo\<close>.
\<close>

fun deliver :: "string \<Rightarrow> string \<Rightarrow> Message \<Rightarrow> (nat \<Rightarrow> byte) option \<Rightarrow> Network \<Rightarrow> Network" where
  "deliver sender receiver (Request (RequestAuth BeginAuth)) rnd s =
     (case begin_auth (node_auth s receiver) rnd sender of
        (ai, response, check) \<Rightarrow>
          s\<lparr>node_auth := (node_auth s)(receiver := ai),
            inflight := inflight s @ reply_of receiver sender response @
              (if check then [(receiver, sender, Request RequestCheckOrigin)] else []),
            history := history s @ issued_step receiver sender response check\<rparr>)"
| "deliver sender receiver (Request (RequestAuth RevokeAuth)) rnd s =
     s\<lparr>node_auth := (node_auth s)(receiver := revoke_auth (node_auth s receiver) sender),
       inflight := inflight s @ [(receiver, sender, Reply (ResponseAuth True []))]\<rparr>"
| "deliver sender receiver (Request RequestCheckOrigin) rnd s =
     (case ReceivedKeys (node_auth s receiver) sender of
        Some key \<Rightarrow>
          s\<lparr>inflight := inflight s @ [(receiver, sender, Reply (ResponseCheckOrigin key))],
            history := history s @ [Echoed receiver sender key]\<rparr>
      | None \<Rightarrow> s)"
| "deliver sender receiver (Reply (ResponseAuth Success key)) rnd s =
     (case handleAuthResponse (node_auth s receiver) Success key sender of
        (ai, err) \<Rightarrow>
          s\<lparr>node_auth := (node_auth s)(receiver := ai),
            history := history s @
              (if length key \<noteq> 0 \<and> Success then [Received receiver sender key] else [])\<rparr>)"
| "deliver sender receiver (Reply (ResponseCheckOrigin key)) rnd s =
     s\<lparr>node_auth := (node_auth s)
         (receiver := handleCheckOriginResponse (node_auth s receiver) key sender),
       history := history s @
         (if key = lookup_bytes (SentKeys (node_auth s receiver)) sender
          then [Accepted receiver sender key] else [])\<rparr>"
| "deliver sender receiver m rnd s = s"

definition remove_at :: "nat \<Rightarrow> 'a list \<Rightarrow> 'a list" where
  "remove_at i xs = take i xs @ drop (Suc i) xs"

fun net_step :: "NetEvent \<Rightarrow> Network \<Rightarrow> Network option" where
  "net_step (CallAuthenticationRequest a command target) s =
     (if command = BeginAuth \<or> command = RevokeAuth
      then Some (s\<lparr>inflight := inflight s @ [(a, target, Request (RequestAuth command))]\<rparr>)
      else Some s)"
| "net_step (CallCheckOriginRequest b target) s =
     Some (s\<lparr>inflight := inflight s @ [(b, target, Request RequestCheckOrigin)]\<rparr>)"
| "net_step (Deliver i rnd) s =
     (if i < length (inflight s)
      then (case inflight s ! i of
              (sender, receiver, m) \<Rightarrow>
                Some (deliver sender receiver m rnd (s\<lparr>inflight := remove_at i (inflight s)\<rparr>)))
      else None)"
| "net_step (Lose i) s =
     (if i < length (inflight s) then Some (s\<lparr>inflight := remove_at i (inflight s)\<rparr>) else None)"

fun run :: "NetEvent list \<Rightarrow> Network \<Rightarrow> Network option" where
  "run [] s = Some s"
| "run (e # es) s = (case net_step e s of None \<Rightarrow> None | Some s' \<Rightarrow> run es s')"

definition initial :: Network where
  "initial =
     \<lparr>node_auth = (\<lambda>n. \<lparr>SentKeys = Map.empty, ReceivedKeys = Map.empty,
                         authenticatedNodes = Map.empty\<rparr>),
      inflight = [], history = []\<rparr>"

definition reachable :: "Network \<Rightarrow> bool" where
  "reachable s \<longleftrightarrow> (\<exists>es. run es initial = Some s)"

text \<open>The invariants of the handshake, on the messages in flight and the stored keys.\<close>

definition inv_auth_reply :: "Network \<Rightarrow> bool" where
  "inv_auth_reply s \<longleftrightarrow>
     (\<forall>b a k. (b, a, Reply (ResponseAuth True k)) \<in> set (inflight s) \<and> k \<noteq> [] \<longrightarrow>
        length k = 512 \<and> subseq [Issued b a k] (history s))"

definition inv_received :: "Network \<Rightarrow> bool" where
  "inv_received s \<longleftrightarrow>
     (\<forall>a b k. ReceivedKeys (node_auth s a) b = Some k \<longrightarrow>
        length k = 512 \<and> subseq [Issued b a k, Received a b k] (history s))"

definition inv_echo :: "Network \<Rightarrow> bool" where
  "inv_echo s \<longleftrightarrow>
     (\<forall>a b k. (a, b, Reply (ResponseCheckOrigin k)) \<in> set (inflight s) \<longrightarrow>
        length k = 512 \<and> subseq [Issued b a k, Received a b k, Echoed a b k] (history s))"

definition inv_authenticated :: "Network \<Rightarrow> bool" where
  "inv_authenticated s \<longleftrightarrow>
     (\<forall>b a. lookup_bool (authenticatedNodes (node_auth s b)) a \<longrightarrow>
        SentKeys (node_auth s b) a = None \<and>
        (\<exists>k. length k = 512 \<and>
           subseq [Issued b a k, Received a b k, Echoed a b k, Accepted b a k] (history s)))"

definition auth_inv :: "Network \<Rightarrow> bool" where
  "auth_inv s \<longleftrightarrow> inv_auth_reply s \<and> inv_received s \<and> inv_echo s \<and> inv_authenticated s"

definition inv_kept :: "Network \<Rightarrow> bool" where
  "inv_kept s \<longleftrightarrow>
     (\<forall>a b k. Received a b k \<in> set (history s) \<longrightarrow>
        (\<exists>k'. ReceivedKeys (node_auth s a) b = Some k'))"

text \<open>
  One complete handshake: \<open>A\<close> begins with \<open>B\<close>, \<open>B\<close> issues a key, \<open>A\<close> stores it,
  \<open>A\<close> answers the \<open>CheckOrigin\<close> of \<open>B\<close>, \<open>B\<close> compares; and what \<open>B\<close> holds on
  \<open>A\<close> and \<open>A\<close> on \<open>B\<close> in a state: whether \<open>B\<close> has authenticated \<open>A\<close>, the key
  \<open>A\<close> stores in \<open>ReceivedKeys[B]\<close>, the key \<open>B\<close> stores in \<open>SentKeys[A]\<close>.
\<close>

definition handshake :: "NetEvent list" where
  "handshake =
     [CallAuthenticationRequest ''A'' BeginAuth ''B'',
      Deliver 0 (Some (\<lambda>i. 7)),
      Deliver 0 None,
      Deliver 0 None,
      Deliver 0 None]"

definition auth_view ::
  "Network \<Rightarrow> bool \<times> byte list option \<times> byte list option" where
  "auth_view s =
     (lookup_bool (authenticatedNodes (node_auth s ''B'')) ''A'',
      ReceivedKeys (node_auth s ''A'') ''B'',
      SentKeys (node_auth s ''B'') ''A'')"

section \<open>Properties of circleXOR\<close>

lemma circleXOR_loop_result:
  assumes "src \<noteq> []" and "\<forall>i \<in> set idxs. i < length result"
  shows "\<exists>r. circleXOR_loop val src idxs result = Inr r \<and> length r = length result \<and>
           (\<forall>j < length result. r ! j =
              (if j \<in> set idxs then (val ! j) XOR (src ! (j mod length src)) else result ! j))"
  using assms
proof (induction idxs arbitrary: result)
  case Nil
  then show ?case by simp
next
  case (Cons i idxs)
  let ?res = "result[i := (val ! i) XOR (src ! (i mod length src))]"
  from Cons.prems have "\<forall>k \<in> set idxs. k < length ?res" by simp
  from Cons.IH [OF Cons.prems(1) this]
  obtain r where r: "circleXOR_loop val src idxs ?res = Inr r" "length r = length ?res"
    "\<forall>j < length ?res. r ! j =
        (if j \<in> set idxs then (val ! j) XOR (src ! (j mod length src)) else ?res ! j)"
    by blast
  from Cons.prems(1) have step: "circleXOR_loop val src (i # idxs) result = Inr r"
    using r(1) by simp
  have "\<forall>j < length result. r ! j =
      (if j \<in> set (i # idxs) then (val ! j) XOR (src ! (j mod length src)) else result ! j)"
    using r(3) by (auto simp: nth_list_update)
  with step r(2) show ?case by simp
qed

lemma circleXOR_nth:
  assumes "src \<noteq> []"
  shows "\<exists>r. circleXOR val src = Inr r \<and> length r = length val \<and>
           (\<forall>j < length val. r ! j = (val ! j) XOR (src ! (j mod length src)))"
proof -
  have "\<forall>i \<in> set [0..<length val]. i < length (replicate (length val) (0::byte))" by simp
  from circleXOR_loop_result [OF assms this, of val]
  show ?thesis unfolding circleXOR_def by auto
qed

text \<open>
  C6. For every byte array \<open>value\<close> and every non-empty \<open>src\<close>, \<open>circleXOR value src\<close>
  returns an array of the length of \<open>value\<close> whose \<open>i\<close>-th byte is
  \<open>value[i] XOR src[i mod len src]\<close>, and applying \<open>circleXOR\<close> with the same \<open>src\<close>
  to that result gives \<open>value\<close> back (in particular when \<open>len value = k * len src\<close>).
\<close>

theorem circleXOR_spec:
  assumes "src \<noteq> []"
  shows "\<exists>r. circleXOR val src = Inr r \<and> length r = length val \<and>
           (\<forall>i < length val. r ! i = (val ! i) XOR (src ! (i mod length src))) \<and>
           circleXOR r src = Inr val"
proof -
  from circleXOR_nth [OF assms, of val]
  obtain r where r: "circleXOR val src = Inr r" "length r = length val"
    "\<forall>j < length val. r ! j = (val ! j) XOR (src ! (j mod length src))" by blast
  from circleXOR_nth [OF assms, of r]
  obtain r2 where r2: "circleXOR r src = Inr r2" "length r2 = length r"
    "\<forall>j < length r. r2 ! j = (r ! j) XOR (src ! (j mod length src))" by blast
  have "r2 = val"
  proof (rule nth_equalityI)
    show "length r2 = length val" using r2(2) r(2) by simp
  next
    fix j assume "j < length r2"
    then have j: "j < length val" using r2(2) r(2) by simp
    then have "r2 ! j = ((val ! j) XOR (src ! (j mod length src))) XOR (src ! (j mod length src))"
      using r2(3) r(3) r(2) by simp
    then show "r2 ! j = val ! j" by (simp add: xor.assoc)
  qed
  with r r2 show ?thesis by simp
qed

theorem circleXOR_spec_witness:
  "[5, 6 :: byte] \<noteq> [] \<and> circleXOR [1, 2, 3, 4] [5, 6] = Inr [4, 4, 6, 2] \<and>
   circleXOR [4, 4, 6, 2] [5, 6 :: byte] = Inr [1, 2, 3, 4]"
proof -
  have e: "circleXOR [1, 2, 3, 4] [5, 6 :: byte] = Inr [4, 4, 6, 2]"
    by code_simp
  show ?thesis using circleXOR_spec [of "[5, 6]" "[1, 2, 3, 4]"] e by simp
qed


section \<open>Properties of the role selection\<close>

lemma IsAuthorized_loop_mem: "IsAuthorized_loop nodes node \<longleftrightarrow> node \<in> set nodes"
  by (induction nodes) auto


lemma example_validators:
  "QueryRole (example_coordinator (map example_node [5, 1, 3, 2, 4])) DynamicRoleVirtualValidator
     example_object 7 = Inr [[3, 3], [5, 5], [2, 2]]"
  by code_simp

lemma example_light_validators:
  "QueryRole (example_coordinator (map example_node [5, 1, 3, 2, 4])) DynamicRoleLightValidator
     example_object 7 = Inl (Err ''failed to fetch jet tree for pulse: no jet tree'')"
  by code_simp

text \<open>
  C5. Whenever \<open>QueryRole\<close> succeeds, \<open>IsAuthorized\<close> returns true exactly if the node
  is a member of the list \<open>QueryRole\<close> returned; when \<open>QueryRole\<close> fails (with an
  error or the panic on an unexpected role), \<open>IsAuthorized\<close> fails with the same error.
\<close>

theorem IsAuthorized_iff_member:
  "(\<forall>nodes. QueryRole jc role obj pulse = Inr nodes \<longrightarrow>
      IsAuthorized jc role obj pulse node = Inr (node \<in> set nodes)) \<and>
   (\<forall>err. QueryRole jc role obj pulse = Inl err \<longrightarrow>
      IsAuthorized jc role obj pulse node = Inl err)"
  by (simp add: IsAuthorized_def IsAuthorized_loop_mem)


theorem IsAuthorized_iff_member_witness:
  "QueryRole (example_coordinator (map example_node [5, 1, 3, 2, 4])) DynamicRoleVirtualValidator
     example_object 7 = Inr [[3, 3], [5, 5], [2, 2]] \<and>
   IsAuthorized (example_coordinator (map example_node [5, 1, 3, 2, 4])) DynamicRoleVirtualValidator
     example_object 7 [5, 5] = Inr True \<and>
   IsAuthorized (example_coordinator (map example_node [5, 1, 3, 2, 4])) DynamicRoleVirtualValidator
     example_object 7 [1, 1] = Inr False \<and>
   IsAuthorized (example_coordinator (map example_node [5, 1, 3, 2, 4])) DynamicRoleLightValidator
     example_object 7 [5, 5] = Inl (Err ''failed to fetch jet tree for pulse: no jet tree'')"
  using IsAuthorized_iff_member [of "example_coordinator (map example_node [5, 1, 3, 2, 4])"
      DynamicRoleVirtualValidator example_object 7 "[5, 5]"]
    IsAuthorized_iff_member [of "example_coordinator (map example_node [5, 1, 3, 2, 4])"
      DynamicRoleVirtualValidator example_object 7 "[1, 1]"]
    IsAuthorized_iff_member [of "example_coordinator (map example_node [5, 1, 3, 2, 4])"
      DynamicRoleLightValidator example_object 7 "[5, 5]"]
    example_validators example_light_validators
  by simp

lemma SelectByEntropy_spec_draws_distinct: "draws_distinct (SelectByEntropy_spec scheme)"
  unfolding draws_distinct_def
proof (intro allI impI)
  fix e :: "byte list" and vs :: "RecordRef list" and n :: nat
  assume a: "distinct vs \<and> n \<le> length vs"
  define idxs where "idxs = sort_key (scheme e) [0..<length vs]"
  have d: "distinct idxs" and s: "set idxs = {0..<length vs}" and l: "length idxs = length vs"
    by (simp_all add: idxs_def)
  define r where "r = map (\<lambda>i. vs ! i) (take n idxs)"
  have sel: "SelectByEntropy_spec scheme e vs m = Inr (map (\<lambda>i. vs ! i) (take m idxs))"
    if "m \<le> n" for m
    using that a by (simp add: SelectByEntropy_spec_def idxs_def)
  have sub: "set (take n idxs) \<subseteq> {0..<length vs}"
    using set_take_subset [of n idxs] s by simp
  have "inj_on (\<lambda>i. vs ! i) (set (take n idxs))"
    using a sub by (intro inj_on_nth) auto
  then have dr: "distinct r"
    using d by (simp add: r_def distinct_map)
  have lr: "length r = n" using a l by (simp add: r_def)
  have sr: "set r \<subseteq> set vs" using sub by (auto simp: r_def)
  have pr: "\<forall>m \<le> n. SelectByEntropy_spec scheme e vs m = Inr (take m r)"
    by (simp add: sel r_def take_map min_def)
  from sel [of n] dr lr sr pr
  show "\<exists>r. SelectByEntropy_spec scheme e vs n = Inr r \<and> length r = n \<and> distinct r \<and>
          set r \<subseteq> set vs \<and> (\<forall>m \<le> n. SelectByEntropy_spec scheme e vs m = Inr (take m r))"
    unfolding r_def by blast
qed


lemma example_entropy:
  "entropy (example_coordinator virtuals) 7 = Inr [1, 2, 3, 4]"
  by (simp add: entropy_def example_coordinator_def)

lemma example_executor:
  "VirtualExecutorForObject (example_coordinator (map example_node [5, 1, 3, 2, 4]))
     example_object 7 = Inr [1, 1]"
  by code_simp

text \<open>
  With a single active virtual node, whatever the draw does: if it returns candidates
  only, the executor and three validators without it cannot both be returned.
\<close>

lemma virtualsForObject_members:
  assumes "NodeStorage jc pulse StaticRoleVirtual = Inr candidates"
    and "\<forall>e vs n r. SelectByEntropy jc e vs n = Inr r \<longrightarrow> set r \<subseteq> set vs"
    and "virtualsForObject jc objID pulse count = Inr nodes"
  shows "set nodes \<subseteq> ID ` set candidates"
proof -
  from assms(1,3) obtain mix where
    "SelectByEntropy jc mix (map ID (sort_key (\<lambda>v. map unat (ID v)) candidates)) count = Inr nodes"
    by (auto simp: virtualsForObject_def getRefs_def Let_def split: if_splits sum.splits)
  with assms(2) have "set nodes \<subseteq> set (map ID (sort_key (\<lambda>v. map unat (ID v)) candidates))"
    by blast
  then show ?thesis by simp
qed

lemma single_candidate_no_three_validators:
  assumes c: "NodeStorage jc pulse StaticRoleVirtual = Inr [c]"
    and sel: "\<forall>e vs n r. SelectByEntropy jc e vs n = Inr r \<longrightarrow> set r \<subseteq> set vs"
  shows "\<not> (\<exists>ex vs. VirtualExecutorForObject jc objID pulse = Inr ex \<and>
              VirtualValidatorsForObject jc objID pulse = Inr vs \<and>
              length vs = VirtualValidatorCount \<and> ex \<notin> set vs)"
proof
  assume "\<exists>ex vs. VirtualExecutorForObject jc objID pulse = Inr ex \<and>
              VirtualValidatorsForObject jc objID pulse = Inr vs \<and>
              length vs = VirtualValidatorCount \<and> ex \<notin> set vs"
  then obtain ex vs where ex: "VirtualExecutorForObject jc objID pulse = Inr ex"
    and vs: "VirtualValidatorsForObject jc objID pulse = Inr vs"
    and len: "length vs = VirtualValidatorCount" and notin: "ex \<notin> set vs" by blast
  from ex obtain n1 where n1: "virtualsForObject jc objID pulse VirtualExecutorCount = Inr n1"
    and e1: "ex \<in> set n1"
    by (auto simp: VirtualExecutorForObject_def first_node_def split: sum.splits list.splits)
  from vs obtain n4 where
    n4: "virtualsForObject jc objID pulse (VirtualValidatorCount + VirtualExecutorCount) = Inr n4"
    and v4: "set vs \<subseteq> set n4"
    by (auto simp: VirtualValidatorsForObject_def slice_from_def split: sum.splits if_splits
        dest: in_set_dropD)
  from virtualsForObject_members [OF c sel n1] e1 have "ex = ID c" by auto
  moreover from len have "vs \<noteq> []" by (auto simp: VirtualValidatorCount_def)
  then obtain v where "v \<in> set vs" by (cases vs) auto
  with v4 virtualsForObject_members [OF c sel n4] have "v = ID c" by auto
  ultimately show False using notin \<open>v \<in> set vs\<close> by simp
qed


text \<open>
  C4, as written, at a pulse with a single active virtual node: active virtual nodes
  exist, the executor is that node, and \<open>VirtualValidatorsForObject\<close> returns an error
  instead of three references, since four distinct candidates cannot be drawn from one.
\<close>

theorem VirtualValidators_single_node_counterexample:
  "NodeStorage (example_coordinator [example_node 5]) 7 StaticRoleVirtual = Inr [example_node 5] \<and>
   VirtualExecutorForObject (example_coordinator [example_node 5]) example_object 7 = Inr [5, 5] \<and>
   VirtualValidatorsForObject (example_coordinator [example_node 5]) example_object 7 =
     Inl (Err ''count value should be less than values size'')"
proof -
  have "NodeStorage (example_coordinator [example_node 5]) 7 StaticRoleVirtual = Inr [example_node 5]"
    by (simp add: example_coordinator_def)
  moreover have "VirtualExecutorForObject (example_coordinator [example_node 5]) example_object 7
      = Inr [5, 5]"
    by code_simp
  moreover have "VirtualValidatorsForObject (example_coordinator [example_node 5]) example_object 7 =
     Inl (Err ''count value should be less than values size'')"
    by code_simp
  ultimately show ?thesis by simp
qed

text \<open>
  C4, amended. At a pulse whose entropy is available and which has at least
  \<open>VirtualExecutorCount + VirtualValidatorCount = 4\<close> active virtual nodes with distinct
  IDs, if the draw gives distinct candidates and a shorter draw gives the first slots of
  a longer one, then \<open>VirtualValidatorsForObject\<close> returns exactly
  \<open>VirtualValidatorCount = 3\<close> references: the four drawn without the first
  \<open>VirtualExecutorCount = 1\<close> slot. That first slot is the reference
  \<open>VirtualExecutorForObject\<close> returns, and it is not among the validators.
\<close>

theorem VirtualValidators_skip_executor:
  assumes sel: "draws_distinct (SelectByEntropy jc)"
    and cands: "NodeStorage jc pulse StaticRoleVirtual = Inr candidates"
    and len: "VirtualExecutorCount + VirtualValidatorCount \<le> length candidates"
    and dist: "distinct (map ID candidates)"
    and ent: "entropy jc pulse = Inr ent"
    and hash: "Hash objID \<noteq> []"
  shows "\<exists>nodes. virtualsForObject jc objID pulse (VirtualValidatorCount + VirtualExecutorCount) = Inr nodes \<and>
           length nodes = VirtualExecutorCount + VirtualValidatorCount \<and>
           VirtualExecutorForObject jc objID pulse = Inr (nodes ! 0) \<and>
           VirtualValidatorsForObject jc objID pulse = Inr (drop VirtualExecutorCount nodes) \<and>
           length (drop VirtualExecutorCount nodes) = VirtualValidatorCount \<and>
           nodes ! 0 \<notin> set (drop VirtualExecutorCount nodes) \<and>
           distinct nodes \<and> set nodes \<subseteq> ID ` set candidates"
proof -
  from circleXOR_nth [OF hash, of ent]
  obtain mix where mix: "circleXOR ent (Hash objID) = Inr mix" by blast
  define inp where "inp = map ID (sort_key (\<lambda>v. map unat (ID v)) candidates)"
  have dinp: "distinct inp" using dist by (simp add: inp_def distinct_map)
  have linp: "length inp = length candidates" by (simp add: inp_def)
  have sinp: "set inp = ID ` set candidates" by (simp add: inp_def)
  from len have len4: "4 \<le> length candidates"
    by (simp add: VirtualExecutorCount_def VirtualValidatorCount_def)
  then have ne: "length candidates \<noteq> 0" by auto
  have v: "virtualsForObject jc objID pulse count =
      (case SelectByEntropy jc mix inp count of Inl err \<Rightarrow> Inl err | Inr res \<Rightarrow> Inr res)" for count
    using cands ne ent mix by (simp add: virtualsForObject_def getRefs_def inp_def)
  from dinp len4 linp have "distinct inp \<and> 4 \<le> length inp" by simp
  with sel [unfolded draws_distinct_def, rule_format, of inp 4 mix]
  obtain r where r: "SelectByEntropy jc mix inp 4 = Inr r" "length r = 4" "distinct r"
    "set r \<subseteq> set inp" "\<forall>m \<le> 4. SelectByEntropy jc mix inp m = Inr (take m r)"
    by blast
  from r(5) have r1: "SelectByEntropy jc mix inp 1 = Inr (take 1 r)" by simp
  obtain a b c d where rr: "r = [a, b, c, d]"
    using r(2) by (auto simp: length_Suc_conv eval_nat_numeral)
  have "virtualsForObject jc objID pulse (VirtualValidatorCount + VirtualExecutorCount) = Inr r"
    using v [of 4] r(1) by (simp add: VirtualExecutorCount_def VirtualValidatorCount_def)
  moreover have "VirtualExecutorForObject jc objID pulse = Inr (r ! 0)"
    using v [of 1] r1 rr by (simp add: VirtualExecutorForObject_def VirtualExecutorCount_def first_node_def)
  moreover have "VirtualValidatorsForObject jc objID pulse = Inr (drop VirtualExecutorCount r)"
    using v [of 4] r(1) rr
    by (simp add: VirtualValidatorsForObject_def VirtualExecutorCount_def VirtualValidatorCount_def
        slice_from_def)
  moreover have "r ! 0 \<notin> set (drop VirtualExecutorCount r)"
    using r(3) rr by (auto simp: VirtualExecutorCount_def)
  ultimately show ?thesis
    using r(2,3,4) sinp rr by (auto simp: VirtualExecutorCount_def VirtualValidatorCount_def)
qed


theorem VirtualValidators_skip_executor_witness:
  "draws_distinct (SelectByEntropy (example_coordinator (map example_node [5, 1, 3, 2, 4]))) \<and>
   NodeStorage (example_coordinator (map example_node [5, 1, 3, 2, 4])) 7 StaticRoleVirtual =
     Inr (map example_node [5, 1, 3, 2, 4]) \<and>
   VirtualExecutorCount + VirtualValidatorCount \<le> length (map example_node [5, 1, 3, 2, 4]) \<and>
   distinct (map ID (map example_node [5, 1, 3, 2, 4])) \<and>
   entropy (example_coordinator (map example_node [5, 1, 3, 2, 4])) 7 = Inr [1, 2, 3, 4] \<and>
   Hash example_object \<noteq> [] \<and>
   VirtualExecutorForObject (example_coordinator (map example_node [5, 1, 3, 2, 4]))
     example_object 7 = Inr [1, 1] \<and>
   (\<exists>nodes. VirtualValidatorsForObject (example_coordinator (map example_node [5, 1, 3, 2, 4]))
      example_object 7 = Inr (drop VirtualExecutorCount nodes) \<and>
      length (drop VirtualExecutorCount nodes) = VirtualValidatorCount \<and>
      [1, 1] \<notin> set (drop VirtualExecutorCount nodes))"
proof -
  let ?jc = "example_coordinator (map example_node [5, 1, 3, 2, 4])"
  have h1: "draws_distinct (SelectByEntropy ?jc)"
    by (simp add: example_coordinator_def SelectByEntropy_spec_draws_distinct)
  have h2: "NodeStorage ?jc 7 StaticRoleVirtual = Inr (map example_node [5, 1, 3, 2, 4])"
    by (simp add: example_coordinator_def)
  have h3: "VirtualExecutorCount + VirtualValidatorCount \<le> length (map example_node [5, 1, 3, 2, 4])"
    by (simp add: VirtualExecutorCount_def VirtualValidatorCount_def)
  have h4: "distinct (map ID (map example_node [5, 1, 3, 2, 4]))"
    by (simp add: example_node_def)
  have h5: "entropy ?jc 7 = Inr [1, 2, 3, 4]"
    by (rule example_entropy)
  have h6: "Hash example_object \<noteq> []"
    by (simp add: example_object_def)
  from VirtualValidators_skip_executor [OF h1 h2 h3 h4 h5 h6]
  show ?thesis using h1 h2 h3 h4 h5 h6 example_executor by auto
qed


section \<open>Properties of the DHT handlers\<close>

lemma FindNode_frame:
  assumes "FindNode env dht ctx key = Inr (dht1, res)"
  shows "auth dht1 = auth dht \<and> transport dht1 = transport dht \<and> relay dht1 = relay dht \<and>
         store dht1 = store dht \<and> options dht1 = options dht"
  using assms
  by (auto simp: FindNode_def Let_def split: if_splits sum.splits prod.splits option.splits)

lemma CheckOriginRequest_frame:
  assumes "CheckOriginRequest env outcome dht ctx targetID = Inr (dht1, err)"
  shows "transport dht1 = transport dht \<and> relay dht1 = relay dht \<and>
         (auth dht1 = auth dht \<or>
          (\<exists>key. outcome = Response (ResponseCheckOrigin key) \<and>
                 auth dht1 = handleCheckOriginResponse (auth dht) key targetID))"
proof (cases "FindNode env dht ctx targetID")
  case (Inl e)
  with assms show ?thesis by (simp add: CheckOriginRequest_def)
next
  case (Inr r)
  obtain d tn ex er where r: "r = (d, tn, ex, er)" by (cases r) auto
  from FindNode_frame [OF Inr [unfolded r]]
  have f: "auth d = auth dht" "transport d = transport dht" "relay d = relay dht" by simp_all
  from assms Inr r f show ?thesis
    by (auto simp: CheckOriginRequest_def split: option.splits if_splits RequestOutcome.splits
        ResponseData.splits)
qed

lemma example_relay_noauth:
  "processRelay example_env (\<lambda>n. TimedOut) (example_dht [] Map.empty) 0
     (example_packet 1 (RequestRelay StartRelay)) =
   Inr ((example_dht [] Map.empty)\<lparr>transport := [(42, example_host 1, ResponseRelay NoAuth)]\<rparr>)"
  by (simp add: processRelay_def example_env_def example_dht_def example_packet_def
      example_host_def lookup_bool_def SendResponse_def)

lemma example_relay_started:
  "processRelay example_env (\<lambda>n. TimedOut) (example_dht [] [''A'' \<mapsto> True]) 0
     (example_packet 1 (RequestRelay StartRelay)) =
   Inr ((example_dht [] [''A'' \<mapsto> True])
     \<lparr>tables := [\<lparr>Origin = example_host 0, RoutingTable = [[], [example_host 1]]\<rparr>],
      relay := [example_host 1],
      transport := [(42, example_host 1, ResponseRelay Started)]\<rparr>)"
  by (simp add: processRelay_def example_env_def example_dht_def example_packet_def
      example_host_def lookup_bool_def SendResponse_def addNode_def htFromCtx_def
      DoesNodeExistInBucket_def MaxContactsInBucket_def relay_command_def)

text \<open>
  C3. For every incoming relay packet whose sender is not marked true in
  \<open>authenticatedNodes\<close>, \<open>processRelay\<close> hands a response with state \<open>NoAuth\<close> to
  the transport and changes nothing else, the relay's clients in particular; whenever
  \<open>processRelay\<close> changes the relay's clients, the sender is authenticated.
\<close>

theorem processRelay_unauthenticated:
  "(\<not> lookup_bool (authenticatedNodes (auth dht)) (HashString env (HostID (Sender msg))) \<longrightarrow>
      processRelay env ping dht ctx msg =
        Inr (dht\<lparr>transport := transport dht @ [(RequestID msg, Sender msg, ResponseRelay NoAuth)]\<rparr>)) \<and>
   (\<forall>dht'. processRelay env ping dht ctx msg = Inr dht' \<and> relay dht' \<noteq> relay dht \<longrightarrow>
      lookup_bool (authenticatedNodes (auth dht)) (HashString env (HostID (Sender msg))))"
  by (auto simp: processRelay_def SendResponse_def)

theorem processRelay_unauthenticated_witness:
  "\<not> lookup_bool (authenticatedNodes (auth (example_dht [] Map.empty)))
       (HashString example_env (HostID (Sender (example_packet 1 (RequestRelay StartRelay))))) \<and>
   processRelay example_env (\<lambda>n. TimedOut) (example_dht [] Map.empty) 0
     (example_packet 1 (RequestRelay StartRelay)) =
   Inr ((example_dht [] Map.empty)\<lparr>transport := [(42, example_host 1, ResponseRelay NoAuth)]\<rparr>) \<and>
   relay ((example_dht [] [''A'' \<mapsto> True])
     \<lparr>tables := [\<lparr>Origin = example_host 0, RoutingTable = [[], [example_host 1]]\<rparr>],
      relay := [example_host 1],
      transport := [(42, example_host 1, ResponseRelay Started)]\<rparr>) \<noteq>
     relay (example_dht [] [''A'' \<mapsto> True]) \<and>
   lookup_bool (authenticatedNodes (auth (example_dht [] [''A'' \<mapsto> True])))
       (HashString example_env (HostID (Sender (example_packet 1 (RequestRelay StartRelay)))))"
proof -
  have n: "\<not> lookup_bool (authenticatedNodes (auth (example_dht [] Map.empty)))
       (HashString example_env (HostID (Sender (example_packet 1 (RequestRelay StartRelay)))))"
    by (simp add: example_dht_def lookup_bool_def)
  have r: "relay ((example_dht [] [''A'' \<mapsto> True])
     \<lparr>tables := [\<lparr>Origin = example_host 0, RoutingTable = [[], [example_host 1]]\<rparr>],
      relay := [example_host 1],
      transport := [(42, example_host 1, ResponseRelay Started)]\<rparr>) \<noteq>
     relay (example_dht [] [''A'' \<mapsto> True])"
    by (simp add: example_dht_def)
  from processRelay_unauthenticated [of "example_dht [] Map.empty" example_env
      "example_packet 1 (RequestRelay StartRelay)" "\<lambda>n. TimedOut" 0]
    processRelay_unauthenticated [of "example_dht [] [''A'' \<mapsto> True]" example_env
      "example_packet 1 (RequestRelay StartRelay)" "\<lambda>n. TimedOut" 0]
    n r example_relay_noauth example_relay_started
  show ?thesis by (simp add: example_dht_def)
qed

text \<open>
  C9. For every string key whose base58 decoding is not exactly
  \<open>MaxContactsInBucket = 20\<close> bytes long, \<open>Get\<close> and \<open>FindNode\<close> return the error
  "invalid key" with no result and the flag false, and leave the whole state of the
  node (the content store and the routing tables in particular) as it was.
\<close>

theorem invalid_key_rejected:
  assumes "length (base58_Decode env key) \<noteq> MaxContactsInBucket"
  shows "Get env dht ctx key = (dht, None, False, Some (Err ''invalid key'')) \<and>
         FindNode env dht ctx key = Inr (dht, None, False, Some (Err ''invalid key''))"
  using assms by (simp add: Get_def FindNode_def)

theorem invalid_key_rejected_witness:
  "length (base58_Decode example_env ''3yZe7d'') \<noteq> MaxContactsInBucket \<and>
   Get example_env (example_dht [] Map.empty) 0 ''3yZe7d'' =
     (example_dht [] Map.empty, None, False, Some (Err ''invalid key'')) \<and>
   FindNode example_env (example_dht [] Map.empty) 0 ''3yZe7d'' =
     Inr (example_dht [] Map.empty, None, False, Some (Err ''invalid key''))"
proof -
  have h: "length (base58_Decode example_env ''3yZe7d'') \<noteq> MaxContactsInBucket"
    by (simp add: example_env_def MaxContactsInBucket_def)
  from invalid_key_rejected [OF h] h show ?thesis by simp
qed

lemma new_auth_key_length: "length (new_auth_key r) = 512"
  by (simp add: new_auth_key_def)

lemma example_begin_authenticated:
  "processAuthentication example_env (Some (\<lambda>i. 7)) Timeout
     (example_dht [example_host 1] [''A'' \<mapsto> True]) 0 (example_packet 1 (RequestAuth BeginAuth)) =
   Inr ((example_dht [example_host 1] [''A'' \<mapsto> True])
     \<lparr>transport := [(42, example_host 1, ResponseAuth False [])]\<rparr>)"
  by (simp add: processAuthentication_def begin_auth_def respond_def example_env_def
      example_dht_def example_packet_def example_host_def lookup_bool_def SendResponse_def)

lemma example_begin_fresh:
  "processAuthentication example_env (Some (\<lambda>i. 7))
     (Response (ResponseCheckOrigin (new_auth_key (\<lambda>i. 7))))
     (example_dht [example_host 1] Map.empty) 0 (example_packet 1 (RequestAuth BeginAuth)) =
   Inr ((example_dht [example_host 1] Map.empty)
     \<lparr>auth := \<lparr>SentKeys = Map.empty, ReceivedKeys = Map.empty,
               authenticatedNodes = [''A'' \<mapsto> True]\<rparr>,
      transport := [(42, example_host 1, ResponseAuth True (new_auth_key (\<lambda>i. 7)))]\<rparr>)"
  by (simp add: processAuthentication_def begin_auth_def respond_def example_env_def
      example_dht_def example_packet_def example_host_def lookup_bool_def SendResponse_def
      CheckOriginRequest_def FindNode_def htFromCtx_def MaxContactsInBucket_def
      handleCheckOriginResponse_def lookup_bytes_def Let_def)

text \<open>
  C10. For every \<open>Auth(Begin)\<close> request whose sender is already marked true in
  \<open>authenticatedNodes\<close>, \<open>processAuthentication\<close> responds with \<open>Success = false\<close>
  and a nil key and changes nothing else: no key is generated, \<open>SentKeys\<close> and
  \<open>authenticatedNodes\<close> stay. Whenever it changes the state for a sender not yet
  authenticated, a key of 512 bytes from the random source is sent in the response
  with \<open>Success = true\<close> and recorded in \<open>SentKeys\<close> for the sender, where it stays
  unless the check of the origin that follows echoes it, which removes it and marks the
  sender authenticated.
\<close>

theorem processAuthentication_begin:
  assumes "Data msg = RequestAuth BeginAuth"
  shows "(lookup_bool (authenticatedNodes (auth dht)) (HashString env (HostID (Sender msg))) \<longrightarrow>
            processAuthentication env rnd outcome dht ctx msg =
              Inr (dht\<lparr>transport := transport dht @ [(RequestID msg, Sender msg, ResponseAuth False [])]\<rparr>)) \<and>
         (\<forall>dht'. \<not> lookup_bool (authenticatedNodes (auth dht)) (HashString env (HostID (Sender msg))) \<and>
             processAuthentication env rnd outcome dht ctx msg = Inr dht' \<and> dht' \<noteq> dht \<longrightarrow>
             (\<exists>r. rnd = Some r \<and> length (new_auth_key r) = 512 \<and>
                transport dht' =
                  transport dht @ [(RequestID msg, Sender msg, ResponseAuth True (new_auth_key r))] \<and>
                (auth dht' = (auth dht)\<lparr>SentKeys := (SentKeys (auth dht))
                     (HashString env (HostID (Sender msg)) \<mapsto> new_auth_key r)\<rparr> \<or>
                 outcome = Response (ResponseCheckOrigin (new_auth_key r)) \<and>
                 auth dht' = (auth dht)\<lparr>SentKeys := (SentKeys (auth dht))
                     (HashString env (HostID (Sender msg)) := None),
                   authenticatedNodes := (authenticatedNodes (auth dht))
                     (HashString env (HostID (Sender msg)) \<mapsto> True)\<rparr>)))"
proof (intro conjI impI allI)
  assume "lookup_bool (authenticatedNodes (auth dht)) (HashString env (HostID (Sender msg)))"
  with assms show "processAuthentication env rnd outcome dht ctx msg =
      Inr (dht\<lparr>transport := transport dht @ [(RequestID msg, Sender msg, ResponseAuth False [])]\<rparr>)"
    by (simp add: processAuthentication_def begin_auth_def respond_def SendResponse_def)
next
  fix dht'
  let ?s = "HashString env (HostID (Sender msg))"
  assume a: "\<not> lookup_bool (authenticatedNodes (auth dht)) ?s \<and>
             processAuthentication env rnd outcome dht ctx msg = Inr dht' \<and> dht' \<noteq> dht"
  show "\<exists>r. rnd = Some r \<and> length (new_auth_key r) = 512 \<and>
                transport dht' =
                  transport dht @ [(RequestID msg, Sender msg, ResponseAuth True (new_auth_key r))] \<and>
                (auth dht' = (auth dht)\<lparr>SentKeys := (SentKeys (auth dht))(?s \<mapsto> new_auth_key r)\<rparr> \<or>
                 outcome = Response (ResponseCheckOrigin (new_auth_key r)) \<and>
                 auth dht' = (auth dht)\<lparr>SentKeys := (SentKeys (auth dht))(?s := None),
                   authenticatedNodes := (authenticatedNodes (auth dht))(?s \<mapsto> True)\<rparr>)"
  proof (cases rnd)
    case None
    have "dht\<lparr>auth := auth dht\<rparr> = dht" by simp
    with None a assms show ?thesis
      by (auto simp: processAuthentication_def begin_auth_def respond_def)
  next
    case (Some r)
    let ?key = "new_auth_key r"
    let ?ai = "(auth dht)\<lparr>SentKeys := (SentKeys (auth dht))(?s \<mapsto> ?key)\<rparr>"
    let ?dht1 = "SendResponse (dht\<lparr>auth := ?ai\<rparr>) (RequestID msg) (Sender msg) (ResponseAuth True ?key)"
    from a assms Some obtain err where co: "CheckOriginRequest env outcome ?dht1 ctx ?s = Inr (dht', err)"
      by (auto simp: processAuthentication_def begin_auth_def respond_def Let_def split: sum.splits)
    from CheckOriginRequest_frame [OF co]
    have t: "transport dht' = transport ?dht1"
      and au: "auth dht' = auth ?dht1 \<or>
          (\<exists>key. outcome = Response (ResponseCheckOrigin key) \<and>
                 auth dht' = handleCheckOriginResponse (auth ?dht1) key ?s)"
      by simp_all
    have a1: "auth ?dht1 = ?ai" by (simp add: SendResponse_def)
    have t1: "transport ?dht1 = transport dht @ [(RequestID msg, Sender msg, ResponseAuth True ?key)]"
      by (simp add: SendResponse_def)
    from au a1 have "auth dht' = ?ai \<or>
        outcome = Response (ResponseCheckOrigin ?key) \<and>
        auth dht' = (auth dht)\<lparr>SentKeys := (SentKeys (auth dht))(?s := None),
                   authenticatedNodes := (authenticatedNodes (auth dht))(?s \<mapsto> True)\<rparr>"
      by (auto simp: handleCheckOriginResponse_def lookup_bytes_def split: if_splits)
    with Some t t1 new_auth_key_length show ?thesis by auto
  qed
qed


theorem processAuthentication_begin_witness:
  "Data (example_packet 1 (RequestAuth BeginAuth)) = RequestAuth BeginAuth \<and>
   processAuthentication example_env (Some (\<lambda>i. 7)) Timeout
     (example_dht [example_host 1] [''A'' \<mapsto> True]) 0 (example_packet 1 (RequestAuth BeginAuth)) =
   Inr ((example_dht [example_host 1] [''A'' \<mapsto> True])
     \<lparr>transport := [(42, example_host 1, ResponseAuth False [])]\<rparr>) \<and>
   \<not> lookup_bool (authenticatedNodes (auth (example_dht [example_host 1] Map.empty)))
       (HashString example_env (HostID (Sender (example_packet 1 (RequestAuth BeginAuth))))) \<and>
   length (new_auth_key (\<lambda>i. 7)) = 512 \<and>
   processAuthentication example_env (Some (\<lambda>i. 7))
     (Response (ResponseCheckOrigin (new_auth_key (\<lambda>i. 7))))
     (example_dht [example_host 1] Map.empty) 0 (example_packet 1 (RequestAuth BeginAuth)) =
   Inr ((example_dht [example_host 1] Map.empty)
     \<lparr>auth := \<lparr>SentKeys = Map.empty, ReceivedKeys = Map.empty,
               authenticatedNodes = [''A'' \<mapsto> True]\<rparr>,
      transport := [(42, example_host 1, ResponseAuth True (new_auth_key (\<lambda>i. 7)))]\<rparr>)"
proof -
  have d: "Data (example_packet 1 (RequestAuth BeginAuth)) = RequestAuth BeginAuth"
    by (simp add: example_packet_def)
  have n: "\<not> lookup_bool (authenticatedNodes (auth (example_dht [example_host 1] Map.empty)))
       (HashString example_env (HostID (Sender (example_packet 1 (RequestAuth BeginAuth)))))"
    by (simp add: example_dht_def lookup_bool_def)
  from processAuthentication_begin [OF d, of "example_dht [example_host 1] [''A'' \<mapsto> True]"
      example_env "Some (\<lambda>i. 7)" Timeout 0]
    processAuthentication_begin [OF d, of "example_dht [example_host 1] Map.empty"
      example_env "Some (\<lambda>i. 7)" "Response (ResponseCheckOrigin (new_auth_key (\<lambda>i. 7)))" 0]
    d n example_begin_authenticated example_begin_fresh new_auth_key_length
  show ?thesis by simp
qed


section \<open>Properties of the routing table insertion\<close>

text \<open>
  C7. For every insertion of a new contact into a bucket that already holds
  \<open>MaxContactsInBucket = 20\<close> contacts, \<open>addNode\<close> pings the head of the bucket. If
  the head responds within \<open>PingTimeout\<close>, nothing changes: the new contact is dropped
  and the head kept. If the ping times out, the head is evicted and the new contact
  appended at the tail. Whatever the ping gives (also when it cannot be sent), the
  bucket holds \<open>MaxContactsInBucket\<close> contacts afterwards and the other buckets are
  as they were.
\<close>

theorem addNode_full_bucket:
  assumes ht: "htFromCtx dht ctx = Inr ht"
    and idx: "index = GetBucketIndexFromDifferingBit env (HostID (Origin ht)) (HostID node)"
    and rng: "index < length (RoutingTable ht)"
    and new: "\<not> DoesNodeExistInBucket ht index (HostID node)"
    and full: "length (RoutingTable ht ! index) = MaxContactsInBucket"
  shows "(ping (RoutingTable ht ! index ! 0) = Responded \<longrightarrow>
            addNode env ping dht ctx node = Inr dht) \<and>
         (ping (RoutingTable ht ! index ! 0) = TimedOut \<longrightarrow>
            addNode env ping dht ctx node =
              Inr (dht\<lparr>tables := (tables dht)[ctx := ht\<lparr>RoutingTable := (RoutingTable ht)
                     [index := tl (RoutingTable ht ! index) @ [node]]\<rparr>]\<rparr>)) \<and>
         (\<exists>dht' ht'. addNode env ping dht ctx node = Inr dht' \<and> htFromCtx dht' ctx = Inr ht' \<and>
            length (RoutingTable ht') = length (RoutingTable ht) \<and>
            length (RoutingTable ht' ! index) = MaxContactsInBucket \<and>
            (\<forall>j. j \<noteq> index \<longrightarrow> RoutingTable ht' ! j = RoutingTable ht ! j))"
proof -
  from ht have c: "ctx < length (tables dht)" and h: "tables dht ! ctx = ht"
    by (auto simp: htFromCtx_def split: if_splits)
  from full have ne: "RoutingTable ht ! index \<noteq> []"
    by (auto simp: MaxContactsInBucket_def)
  have a: "addNode env ping dht ctx node =
      (case ping (RoutingTable ht ! index ! 0) of
         SendFailed \<Rightarrow> Inr (dht\<lparr>tables := (tables dht)[ctx := ht\<lparr>RoutingTable := (RoutingTable ht)
                     [index := tl (RoutingTable ht ! index @ [node])]\<rparr>]\<rparr>)
       | Responded \<Rightarrow> Inr dht
       | TimedOut \<Rightarrow> Inr (dht\<lparr>tables := (tables dht)[ctx := ht\<lparr>RoutingTable := (RoutingTable ht)
                     [index := tl (RoutingTable ht ! index) @ [node]]\<rparr>]\<rparr>))"
    using ht rng new full by (simp add: addNode_def Let_def idx [symmetric])
  have l1: "length (tl (RoutingTable ht ! index @ [node])) = MaxContactsInBucket"
    using full by simp
  have l2: "length (tl (RoutingTable ht ! index) @ [node]) = MaxContactsInBucket"
    using full ne by (cases "RoutingTable ht ! index") auto
  show ?thesis
  proof (cases "ping (RoutingTable ht ! index ! 0)")
    case SendFailed
    with a c rng l1 show ?thesis by (simp add: htFromCtx_def)
  next
    case Responded
    with a ht full show ?thesis by simp
  next
    case TimedOut
    with a c rng l2 show ?thesis by (simp add: htFromCtx_def)
  qed
qed

lemma example_full_ht:
  "htFromCtx example_full_dht 0 =
     Inr \<lparr>Origin = example_host 0,
          RoutingTable = [[], map example_host
            [1, 2, 3, 4, 5, 6, 7, 8, 9, 10, 11, 12, 13, 14, 15, 16, 17, 18, 19, 20]]\<rparr>"
  by (simp add: htFromCtx_def example_full_dht_def)

theorem addNode_full_bucket_witness:
  "addNode example_env (\<lambda>n. Responded) example_full_dht 0 (example_host 30) = Inr example_full_dht \<and>
   addNode example_env (\<lambda>n. TimedOut) example_full_dht 0 (example_host 30) =
     Inr (example_full_dht\<lparr>tables := [\<lparr>Origin = example_host 0,
        RoutingTable = [[], map example_host
          [2, 3, 4, 5, 6, 7, 8, 9, 10, 11, 12, 13, 14, 15, 16, 17, 18, 19, 20, 30]]\<rparr>]\<rparr>)"
proof -
  let ?ht = "\<lparr>Origin = example_host 0,
          RoutingTable = [[], map example_host
            [1, 2, 3, 4, 5, 6, 7, 8, 9, 10, 11, 12, 13, 14, 15, 16, 17, 18, 19, 20]]\<rparr>"
  have idx: "1 = GetBucketIndexFromDifferingBit example_env (HostID (Origin ?ht))
      (HostID (example_host 30))"
    by (simp add: example_env_def)
  have rng: "1 < length (RoutingTable ?ht)" by simp
  have new: "\<not> DoesNodeExistInBucket ?ht 1 (HostID (example_host 30))"
    by (simp add: DoesNodeExistInBucket_def example_host_def)
  have full: "length (RoutingTable ?ht ! 1) = MaxContactsInBucket"
    by (simp add: MaxContactsInBucket_def)
  from addNode_full_bucket [OF example_full_ht idx rng new full, of "\<lambda>n. Responded"]
    addNode_full_bucket [OF example_full_ht idx rng new full, of "\<lambda>n. TimedOut"]
  show ?thesis by (simp add: example_full_dht_def)
qed


section \<open>Properties of the expiration time\<close>
















section \<open>Properties of the discovery bootstrap\<close>

lemma find_Some_ex: "(\<exists>x \<in> set xs. P x) \<Longrightarrow> \<exists>y. find P xs = Some y"
  by (induction xs) auto

lemma checkActiveNode_collision:
  assumes "\<exists>m \<in> set (NodeKeeper bc). ID m = ID node \<or> ShortID m = ShortID node"
  shows "\<exists>e. checkActiveNode bc node = Some e \<and>
           (e = Err ''Node ID collision'' \<or> e = Err ''Short ID collision'')"
proof (cases "\<exists>m \<in> set (NodeKeeper bc). ID m = ID node")
  case True
  from find_Some_ex [where P = "\<lambda>n. ID n = ID node", OF True]
  show ?thesis by (auto simp: checkActiveNode_def GetActiveNode_def)
next
  case False
  with assms have "\<exists>m \<in> set (NodeKeeper bc). ShortID m = ShortID node" by blast
  from find_Some_ex [where P = "\<lambda>n. ShortID n = ShortID node", OF this]
  show ?thesis
    by (auto simp: checkActiveNode_def GetActiveNode_def GetActiveNodeByShortID_def
        split: option.splits)
qed

lemma check_loop_collision:
  assumes "\<exists>n \<in> set activeNodes. \<exists>m \<in> set (NodeKeeper bc). ID m = ID n \<or> ShortID m = ShortID n"
  shows "\<exists>e. check_loop bc activeNodes = Some e \<and> collision_error e"
  using assms
proof (induction activeNodes)
  case Nil
  then show ?case by simp
next
  case (Cons a rest)
  show ?case
  proof (cases "checkActiveNode bc a")
    case (Some e)
    have "e = Err ''Node ID collision'' \<or> e = Err ''Short ID collision''"
      using Some by (auto simp: checkActiveNode_def split: option.splits)
    with Some show ?thesis by (auto simp: collision_error_def)
  next
    case None
    have "\<not> (\<exists>m \<in> set (NodeKeeper bc). ID m = ID a \<or> ShortID m = ShortID a)"
      using checkActiveNode_collision [of bc a] None by auto
    with Cons.prems have "\<exists>n \<in> set rest. \<exists>m \<in> set (NodeKeeper bc). ID m = ID n \<or> ShortID m = ShortID n"
      by auto
    from Cons.IH [OF this] None show ?thesis by simp
  qed
qed

text \<open>
  C8. During discovery bootstrap, once the nodes of the genesis exchange have been
  received: if any of them carries a NodeID or a ShortID of a known active node,
  \<open>BootstrapDiscovery\<close> returns a collision error and the active nodes are as they
  were, none of the received nodes added.
\<close>

theorem BootstrapDiscovery_collision:
  assumes ro: "RemoveOrigin env = Inr discoveryNodes"
    and ne: "discoveryNodes \<noteq> []"
    and conn: "connect_all (discoveryHosts env) (length discoveryNodes) 0 = Some hosts"
    and lock: "wait_bootstrapLock env bc = Some bc1"
    and gen: "genesisResults env hosts = Inr (activeNodes, lastPulses)"
    and coll: "\<exists>n \<in> set activeNodes. \<exists>m \<in> set (NodeKeeper bc). ID m = ID n \<or> ShortID m = ShortID n"
  shows "\<exists>bc' e. BootstrapDiscovery env bc = Some (bc', Some e) \<and> collision_error e \<and>
           NodeKeeper bc' = NodeKeeper bc"
proof -
  let ?bc2 = "forceSetLastPulse bc1 (calculateLastIgnoredPulse bc1 lastPulses)"
  have nk1: "NodeKeeper bc1 = NodeKeeper bc"
    using lock by (auto simp: wait_bootstrapLock_def SetLastPulse_def split: if_splits option.splits)
  then have nk2: "NodeKeeper ?bc2 = NodeKeeper bc" by (simp add: forceSetLastPulse_def)
  from coll nk2 have "\<exists>n \<in> set activeNodes. \<exists>m \<in> set (NodeKeeper ?bc2). ID m = ID n \<or> ShortID m = ShortID n"
    by simp
  from check_loop_collision [OF this]
  obtain e where e: "check_loop ?bc2 activeNodes = Some e" "collision_error e" by blast
  have "BootstrapDiscovery env bc = Some (?bc2, Some e)"
    using ro ne conn lock gen e(1) by (simp add: BootstrapDiscovery_def Let_def)
  with e(2) nk2 show ?thesis by blast
qed

lemma example_connect:
  "connect_all (discoveryHosts example_bootstrap_env) 2 0 = Some [''10.0.0.2:7900'', ''10.0.0.3:7900'']"
  apply (subst connect_all.simps)
  apply (subst connect_all.simps)
  apply (simp add: example_bootstrap_env_def)
  done

theorem BootstrapDiscovery_collision_witness:
  "BootstrapDiscovery example_bootstrap_env example_bootstrapper =
     Some (\<lparr>NodeKeeper = [\<lparr>ID = [1, 1], ShortID = 10\<rparr>], lastPulse = 65540, pulsePersisted = True\<rparr>,
           Some (Err ''Discovery check of node failed: Short ID collision''))"
proof -
  have ro: "RemoveOrigin example_bootstrap_env = Inr [''10.0.0.2:7900'', ''10.0.0.3:7900'']"
    by (simp add: example_bootstrap_env_def)
  have ne: "[''10.0.0.2:7900'', ''10.0.0.3:7900''] \<noteq> ([] :: string list)" by simp
  have conn: "connect_all (discoveryHosts example_bootstrap_env)
      (length [''10.0.0.2:7900'', ''10.0.0.3:7900'']) 0 = Some [''10.0.0.2:7900'', ''10.0.0.3:7900'']"
  proof -
    have l: "length [''10.0.0.2:7900'', ''10.0.0.3:7900''] = 2" by simp
    show ?thesis by (simp only: l example_connect)
  qed
  have lock: "wait_bootstrapLock example_bootstrap_env example_bootstrapper =
      Some \<lparr>NodeKeeper = [\<lparr>ID = [1, 1], ShortID = 10\<rparr>], lastPulse = 65537, pulsePersisted = True\<rparr>"
    by (simp add: wait_bootstrapLock_def example_bootstrap_env_def example_bootstrapper_def
        SetLastPulse_def)
  have gen: "genesisResults example_bootstrap_env [''10.0.0.2:7900'', ''10.0.0.3:7900''] =
      Inr ([\<lparr>ID = [2, 2], ShortID = 11\<rparr>, \<lparr>ID = [3, 3], ShortID = 10\<rparr>], [65540, 65538])"
    by (simp add: example_bootstrap_env_def)
  have coll: "\<exists>n \<in> set [\<lparr>ID = [2, 2], ShortID = 11\<rparr>, \<lparr>ID = [3, 3], ShortID = 10\<rparr>].
      \<exists>m \<in> set (NodeKeeper example_bootstrapper). ID m = ID n \<or> ShortID m = ShortID n"
    by (simp add: example_bootstrapper_def)
  have v: "BootstrapDiscovery example_bootstrap_env example_bootstrapper =
     Some (\<lparr>NodeKeeper = [\<lparr>ID = [1, 1], ShortID = 10\<rparr>], lastPulse = 65540, pulsePersisted = True\<rparr>,
           Some (Err ''Discovery check of node failed: Short ID collision''))"
    using ro conn lock gen
    by (simp add: BootstrapDiscovery_def Let_def forceSetLastPulse_def calculateLastIgnoredPulse_def
        checkActiveNode_def GetActiveNode_def GetActiveNodeByShortID_def)
  from BootstrapDiscovery_collision [OF ro ne conn lock gen coll] v
  show ?thesis by simp
qed


section \<open>Properties of the authentication protocol\<close>

lemma set_remove_at: "set (remove_at i xs) \<subseteq> set xs"
  unfolding remove_at_def
  by (metis append_take_drop_id set_append set_drop_subset Un_mono subset_refl set_take_subset
      le_sup_iff sup.coboundedI1 sup.coboundedI2)

lemma subseq_snoc: "subseq xs h \<Longrightarrow> subseq (xs @ [e]) (h @ [e])"
  by (rule list_emb_append_mono) simp_all

lemma inv_auth_reply_weaken:
  assumes "inv_auth_reply s" and "set (inflight s') \<subseteq> set (inflight s)"
    and "history s' = history s @ h"
  shows "inv_auth_reply s'"
  using assms unfolding inv_auth_reply_def
  by (metis subsetD subseq_rev_drop_many)

lemma inv_received_weaken:
  assumes "inv_received s" and "node_auth s' = node_auth s" and "history s' = history s @ h"
  shows "inv_received s'"
  using assms unfolding inv_received_def
  by (auto intro: subseq_rev_drop_many)

lemma inv_echo_weaken:
  assumes "inv_echo s" and "set (inflight s') \<subseteq> set (inflight s)"
    and "history s' = history s @ h"
  shows "inv_echo s'"
  using assms unfolding inv_echo_def
  by (metis subsetD subseq_rev_drop_many)

lemma inv_authenticated_weaken:
  assumes "inv_authenticated s" and "node_auth s' = node_auth s" and "history s' = history s @ h"
  shows "inv_authenticated s'"
  using assms unfolding inv_authenticated_def
  by (metis subseq_rev_drop_many)

lemma auth_inv_weaken:
  assumes "auth_inv s" and "node_auth s' = node_auth s"
    and "set (inflight s') \<subseteq> set (inflight s)" and "history s' = history s @ h"
  shows "auth_inv s'"
  using assms unfolding auth_inv_def
  by (blast intro: inv_auth_reply_weaken inv_received_weaken inv_echo_weaken
      inv_authenticated_weaken)


lemma subseq_last1: "subseq [e] (h @ [e])"
  by (simp add: subseq_singleton_left)

lemma begin_inv:
  assumes "auth_inv s"
  shows "auth_inv (deliver sender receiver (Request (RequestAuth BeginAuth)) rnd s)"
proof (cases "lookup_bool (authenticatedNodes (node_auth s receiver)) sender")
  case True
  let ?s' = "deliver sender receiver (Request (RequestAuth BeginAuth)) rnd s"
  have na: "node_auth ?s' = node_auth s"
    and inf: "inflight ?s' = inflight s @ [(receiver, sender, Reply (ResponseAuth False []))]"
    and hist: "history ?s' = history s"
    using True by (simp_all add: begin_auth_def)
  from assms show ?thesis
    unfolding auth_inv_def inv_auth_reply_def inv_received_def inv_echo_def inv_authenticated_def
      na inf hist
    by auto
next
  case False
  show ?thesis
  proof (cases rnd)
    case None
    have "deliver sender receiver (Request (RequestAuth BeginAuth)) rnd s = s"
      using False None by (simp add: begin_auth_def)
    with assms show ?thesis by simp
  next
    case (Some r)
    let ?s' = "deliver sender receiver (Request (RequestAuth BeginAuth)) rnd s"
    let ?key = "new_auth_key r"
    have na: "node_auth ?s' = (node_auth s)(receiver := (node_auth s receiver)
        \<lparr>SentKeys := (SentKeys (node_auth s receiver))(sender \<mapsto> ?key)\<rparr>)"
      and inf: "inflight ?s' = inflight s @ [(receiver, sender, Reply (ResponseAuth True ?key)),
          (receiver, sender, Request RequestCheckOrigin)]"
      and hist: "history ?s' = history s @ [Issued receiver sender ?key]"
      using False Some by (simp_all add: begin_auth_def Let_def)
    have len: "length ?key = 512" by (simp add: new_auth_key_def)
    have j1: "inv_auth_reply ?s'"
      using assms len unfolding auth_inv_def inv_auth_reply_def inf hist
      by (auto intro: subseq_rev_drop_many subseq_last1)
    have j2: "inv_received ?s'"
      using assms unfolding auth_inv_def inv_received_def na hist
      by (auto intro: subseq_rev_drop_many)
    have j3: "inv_echo ?s'"
      using assms unfolding auth_inv_def inv_echo_def inf hist
      by (auto intro: subseq_rev_drop_many)
    have j4: "inv_authenticated ?s'"
      using assms False unfolding auth_inv_def inv_authenticated_def na hist
      by auto (metis subseq_rev_drop_many)+
    from j1 j2 j3 j4 show ?thesis by (simp add: auth_inv_def)
  qed
qed


lemma revoke_inv:
  assumes "auth_inv s"
  shows "auth_inv (deliver sender receiver (Request (RequestAuth RevokeAuth)) rnd s)"
proof -
  let ?s' = "deliver sender receiver (Request (RequestAuth RevokeAuth)) rnd s"
  have na: "node_auth ?s' = (node_auth s)(receiver := (node_auth s receiver)
        \<lparr>authenticatedNodes := (authenticatedNodes (node_auth s receiver))(sender := None)\<rparr>)"
    and inf: "inflight ?s' = inflight s @ [(receiver, sender, Reply (ResponseAuth True []))]"
    and hist: "history ?s' = history s"
    by (simp_all add: revoke_auth_def)
  have j1: "inv_auth_reply ?s'"
    using assms unfolding auth_inv_def inv_auth_reply_def inf hist by auto
  have j2: "inv_received ?s'"
    using assms unfolding auth_inv_def inv_received_def na hist by auto
  have j3: "inv_echo ?s'"
    using assms unfolding auth_inv_def inv_echo_def inf hist by auto
  have j4: "inv_authenticated ?s'"
    using assms unfolding auth_inv_def inv_authenticated_def na hist
    by (auto simp: lookup_bool_def split: if_splits)
  from j1 j2 j3 j4 show ?thesis by (simp add: auth_inv_def)
qed

lemma check_origin_inv:
  assumes "auth_inv s"
  shows "auth_inv (deliver sender receiver (Request RequestCheckOrigin) rnd s)"
proof (cases "ReceivedKeys (node_auth s receiver) sender")
  case None
  with assms show ?thesis by simp
next
  case (Some key)
  let ?s' = "deliver sender receiver (Request RequestCheckOrigin) rnd s"
  have na: "node_auth ?s' = node_auth s"
    and inf: "inflight ?s' = inflight s @ [(receiver, sender, Reply (ResponseCheckOrigin key))]"
    and hist: "history ?s' = history s @ [Echoed receiver sender key]"
    using Some by simp_all
  from assms Some have k: "length key = 512"
    "subseq [Issued sender receiver key, Received receiver sender key] (history s)"
    unfolding auth_inv_def inv_received_def by blast+
  from subseq_snoc [OF k(2), of "Echoed receiver sender key"]
  have e: "subseq [Issued sender receiver key, Received receiver sender key,
      Echoed receiver sender key] (history s @ [Echoed receiver sender key])" by simp
  have j1: "inv_auth_reply ?s'"
    using assms unfolding auth_inv_def inv_auth_reply_def inf hist
    by (auto intro: subseq_rev_drop_many)
  have j2: "inv_received ?s'"
    using assms unfolding auth_inv_def inv_received_def na hist
    by (auto intro: subseq_rev_drop_many)
  have j3: "inv_echo ?s'"
    using assms k(1) e unfolding auth_inv_def inv_echo_def inf hist
    by (auto intro: subseq_rev_drop_many)
  have j4: "inv_authenticated ?s'"
    using assms unfolding auth_inv_def inv_authenticated_def na hist
    by (metis subseq_rev_drop_many)
  from j1 j2 j3 j4 show ?thesis by (simp add: auth_inv_def)
qed


lemma auth_reply_inv:
  assumes "auth_inv s"
    and msg: "Success \<and> key \<noteq> [] \<longrightarrow>
        length key = 512 \<and> subseq [Issued sender receiver key] (history s)"
  shows "auth_inv (deliver sender receiver (Reply (ResponseAuth Success key)) rnd s)"
proof (cases "length key \<noteq> 0 \<and> Success")
  case False
  then have "deliver sender receiver (Reply (ResponseAuth Success key)) rnd s = s"
    by (auto simp: handleAuthResponse_def)
  with assms show ?thesis by simp
next
  case True
  let ?s' = "deliver sender receiver (Reply (ResponseAuth Success key)) rnd s"
  have na: "node_auth ?s' = (node_auth s)(receiver := (node_auth s receiver)
        \<lparr>ReceivedKeys := (ReceivedKeys (node_auth s receiver))(sender \<mapsto> key)\<rparr>)"
    and inf: "inflight ?s' = inflight s"
    and hist: "history ?s' = history s @ [Received receiver sender key]"
    using True by (simp_all add: handleAuthResponse_def)
  from True msg have k: "length key = 512" "subseq [Issued sender receiver key] (history s)"
    by auto
  from subseq_snoc [OF k(2), of "Received receiver sender key"]
  have e: "subseq [Issued sender receiver key, Received receiver sender key]
      (history s @ [Received receiver sender key])" by simp
  have j1: "inv_auth_reply ?s'"
    using assms(1) unfolding auth_inv_def inv_auth_reply_def inf hist
    by (auto intro: subseq_rev_drop_many)
  have j2: "inv_received ?s'"
    using assms(1) k(1) e unfolding auth_inv_def inv_received_def na hist
    by (auto intro: subseq_rev_drop_many)
  have j3: "inv_echo ?s'"
    using assms(1) unfolding auth_inv_def inv_echo_def inf hist
    by (auto intro: subseq_rev_drop_many)
  have j4: "inv_authenticated ?s'"
    using assms(1) unfolding auth_inv_def inv_authenticated_def na hist
    by auto (metis subseq_rev_drop_many)+
  from j1 j2 j3 j4 show ?thesis by (simp add: auth_inv_def)
qed

lemma echo_reply_inv:
  assumes "auth_inv s"
    and msg: "length key = 512 \<and>
        subseq [Issued receiver sender key, Received sender receiver key,
                Echoed sender receiver key] (history s)"
  shows "auth_inv (deliver sender receiver (Reply (ResponseCheckOrigin key)) rnd s)"
proof (cases "key = lookup_bytes (SentKeys (node_auth s receiver)) sender")
  case False
  then have "deliver sender receiver (Reply (ResponseCheckOrigin key)) rnd s = s"
    by (simp add: handleCheckOriginResponse_def)
  with assms show ?thesis by simp
next
  case True
  let ?s' = "deliver sender receiver (Reply (ResponseCheckOrigin key)) rnd s"
  have na: "node_auth ?s' = (node_auth s)(receiver := (node_auth s receiver)
        \<lparr>SentKeys := (SentKeys (node_auth s receiver))(sender := None),
          authenticatedNodes := (authenticatedNodes (node_auth s receiver))(sender \<mapsto> True)\<rparr>)"
    and inf: "inflight ?s' = inflight s"
    and hist: "history ?s' = history s @ [Accepted receiver sender key]"
    using True by (simp_all add: handleCheckOriginResponse_def)
  from subseq_snoc [OF conjunct2 [OF msg], of "Accepted receiver sender key"]
  have e: "subseq [Issued receiver sender key, Received sender receiver key,
      Echoed sender receiver key, Accepted receiver sender key]
      (history s @ [Accepted receiver sender key])" by simp
  have j1: "inv_auth_reply ?s'"
    using assms(1) unfolding auth_inv_def inv_auth_reply_def inf hist
    by (auto intro: subseq_rev_drop_many)
  have j2: "inv_received ?s'"
    using assms(1) unfolding auth_inv_def inv_received_def na hist
    by (auto intro: subseq_rev_drop_many)
  have j3: "inv_echo ?s'"
    using assms(1) unfolding auth_inv_def inv_echo_def inf hist
    by (auto intro: subseq_rev_drop_many)
  have old: "\<And>b a. lookup_bool (authenticatedNodes (node_auth s b)) a \<Longrightarrow>
      SentKeys (node_auth s b) a = None \<and>
      (\<exists>k. length k = 512 \<and>
         subseq [Issued b a k, Received a b k, Echoed a b k, Accepted b a k]
           (history s @ [Accepted receiver sender key]))"
    using assms(1) unfolding auth_inv_def inv_authenticated_def
    by (metis subseq_rev_drop_many)
  have j4: "inv_authenticated ?s'"
    unfolding inv_authenticated_def na hist
  proof (intro allI impI)
    fix b a
    assume au: "lookup_bool (authenticatedNodes (((node_auth s)(receiver := (node_auth s receiver)
        \<lparr>SentKeys := (SentKeys (node_auth s receiver))(sender := None),
          authenticatedNodes := (authenticatedNodes (node_auth s receiver))(sender \<mapsto> True)\<rparr>)) b)) a"
    show "SentKeys (((node_auth s)(receiver := (node_auth s receiver)
        \<lparr>SentKeys := (SentKeys (node_auth s receiver))(sender := None),
          authenticatedNodes := (authenticatedNodes (node_auth s receiver))(sender \<mapsto> True)\<rparr>)) b) a = None \<and>
      (\<exists>k. length k = 512 \<and>
         subseq [Issued b a k, Received a b k, Echoed a b k, Accepted b a k]
           (history s @ [Accepted receiver sender key]))"
    proof (cases "b = receiver \<and> a = sender")
      case True
      with msg e show ?thesis by auto
    next
      case False
      with au have "lookup_bool (authenticatedNodes (node_auth s b)) a"
        by (auto simp: lookup_bool_def split: if_splits)
      from old [OF this] False show ?thesis by auto
    qed
  qed
  from j1 j2 j3 j4 show ?thesis by (simp add: auth_inv_def)
qed

lemma deliver_inv:
  assumes inv: "auth_inv s0" and m: "(sender, receiver, m) \<in> set (inflight s0)"
    and na: "node_auth s = node_auth s0" and inf: "set (inflight s) \<subseteq> set (inflight s0)"
    and hist: "history s = history s0"
  shows "auth_inv (deliver sender receiver m rnd s)"
proof -
  have s: "auth_inv s"
    using auth_inv_weaken [OF inv na inf, of "[]"] hist by simp
  show ?thesis
  proof (cases m)
    case (Request d)
    show ?thesis
    proof (cases d)
      case (RequestAuth c)
      show ?thesis
      proof (cases c)
        case BeginAuth
        show ?thesis unfolding Request RequestAuth BeginAuth by (rule begin_inv [OF s])
      next
        case RevokeAuth
        show ?thesis unfolding Request RequestAuth RevokeAuth by (rule revoke_inv [OF s])
      qed (use Request RequestAuth s in simp_all)
    next
      case RequestCheckOrigin
      show ?thesis unfolding Request RequestCheckOrigin by (rule check_origin_inv [OF s])
    qed (use Request s in simp_all)
  next
    case (Reply r)
    show ?thesis
    proof (cases r)
      case (ResponseAuth Success key)
      from inv m Reply ResponseAuth have "Success \<and> key \<noteq> [] \<longrightarrow>
        length key = 512 \<and> subseq [Issued sender receiver key] (history s)"
        unfolding auth_inv_def inv_auth_reply_def hist by auto
      from auth_reply_inv [OF s this] show ?thesis unfolding Reply ResponseAuth .
    next
      case (ResponseCheckOrigin key)
      from inv m Reply ResponseCheckOrigin have "length key = 512 \<and>
        subseq [Issued receiver sender key, Received sender receiver key,
                Echoed sender receiver key] (history s)"
        unfolding auth_inv_def inv_echo_def hist by auto
      from echo_reply_inv [OF s this] show ?thesis unfolding Reply ResponseCheckOrigin .
    qed (use Reply s in simp_all)
  qed
qed


lemma request_inv:
  assumes "auth_inv s"
  shows "auth_inv (s\<lparr>inflight := inflight s @ [(a, b, Request d)]\<rparr>)"
  using assms
  unfolding auth_inv_def inv_auth_reply_def inv_received_def inv_echo_def inv_authenticated_def
  by auto

lemma net_step_inv:
  assumes "auth_inv s" and "net_step e s = Some s'"
  shows "auth_inv s'"
proof (cases e)
  case (CallAuthenticationRequest a command target)
  with assms request_inv [OF assms(1)] show ?thesis by (auto split: if_splits)
next
  case (CallCheckOriginRequest b target)
  with assms request_inv [OF assms(1)] show ?thesis by auto
next
  case (Deliver i rnd)
  with assms have i: "i < length (inflight s)" by (auto split: if_splits)
  obtain sender receiver m where m: "inflight s ! i = (sender, receiver, m)"
    by (cases "inflight s ! i") auto
  with i have mem: "(sender, receiver, m) \<in> set (inflight s)" by (metis nth_mem)
  from assms Deliver i m
  have s': "s' = deliver sender receiver m rnd (s\<lparr>inflight := remove_at i (inflight s)\<rparr>)"
    by simp
  show ?thesis unfolding s'
    by (rule deliver_inv [OF assms(1) mem]) (simp_all add: set_remove_at)
next
  case (Lose i)
  with assms have s': "s' = s\<lparr>inflight := remove_at i (inflight s)\<rparr>"
    by (auto split: if_splits)
  show ?thesis unfolding s'
    by (rule auth_inv_weaken [OF assms(1), of _ "[]"]) (simp_all add: set_remove_at)
qed

lemma run_inv: "auth_inv s \<Longrightarrow> run es s = Some s' \<Longrightarrow> auth_inv s'"
proof (induction es arbitrary: s)
  case Nil
  then show ?case by simp
next
  case (Cons e es)
  then show ?case by (auto split: option.splits dest: net_step_inv)
qed

lemma initial_inv: "auth_inv initial"
  by (simp add: auth_inv_def inv_auth_reply_def inv_received_def inv_echo_def
      inv_authenticated_def initial_def lookup_bool_def)

lemma deliver_kept:
  assumes "inv_kept s"
  shows "inv_kept (deliver sender receiver m rnd s)"
proof (cases m)
  case (Request d)
  show ?thesis
  proof (cases d)
    case (RequestAuth c)
    show ?thesis
    proof (cases c)
      case BeginAuth
      with assms Request RequestAuth show ?thesis
        by (cases rnd) (auto simp: inv_kept_def begin_auth_def Let_def)
    next
      case RevokeAuth
      with assms Request RequestAuth show ?thesis
        by (auto simp: inv_kept_def revoke_auth_def)
    qed (use assms Request RequestAuth in simp_all)
  next
    case RequestCheckOrigin
    with assms Request show ?thesis
      by (auto simp: inv_kept_def split: option.splits)
  qed (use assms Request in simp_all)
next
  case (Reply r)
  show ?thesis
  proof (cases r)
    case (ResponseAuth Success key)
    with assms Reply show ?thesis
      by (auto simp: inv_kept_def handleAuthResponse_def)
  next
    case (ResponseCheckOrigin key)
    with assms Reply show ?thesis
      by (auto simp: inv_kept_def handleCheckOriginResponse_def)
  qed (use assms Reply in simp_all)
qed

lemma inv_kept_same:
  assumes "inv_kept s" and "node_auth s' = node_auth s" and "history s' = history s"
  shows "inv_kept s'"
  using assms by (simp add: inv_kept_def)

lemma net_step_kept:
  assumes "inv_kept s" and "net_step e s = Some s'"
  shows "inv_kept s'"
proof (cases e)
  case (CallAuthenticationRequest a command target)
  with assms(2) have "node_auth s' = node_auth s" "history s' = history s"
    by (auto split: if_splits)
  with assms(1) show ?thesis by (rule inv_kept_same)
next
  case (CallCheckOriginRequest b target)
  with assms(2) have "node_auth s' = node_auth s" "history s' = history s" by auto
  with assms(1) show ?thesis by (rule inv_kept_same)
next
  case (Deliver i rnd)
  have "inv_kept (s\<lparr>inflight := remove_at i (inflight s)\<rparr>)"
    using assms(1) by (simp add: inv_kept_def)
  from deliver_kept [OF this] assms(2) Deliver show ?thesis
    by (auto split: if_splits prod.splits)
next
  case (Lose i)
  with assms(2) have "node_auth s' = node_auth s" "history s' = history s"
    by (auto split: if_splits)
  with assms(1) show ?thesis by (rule inv_kept_same)
qed

lemma run_kept: "inv_kept s \<Longrightarrow> run es s = Some s' \<Longrightarrow> inv_kept s'"
proof (induction es arbitrary: s)
  case Nil
  then show ?case by simp
next
  case (Cons e es)
  then show ?case by (auto split: option.splits dest: net_step_kept)
qed

lemma initial_kept: "inv_kept initial"
  by (simp add: inv_kept_def initial_def)

lemma new_auth_key_not_Nil: "new_auth_key r \<noteq> []"
  using new_auth_key_length [of r] by auto

lemma handshake_half:
  "map_option auth_view (run (take 3 handshake) initial) =
     Some (False, Some (new_auth_key (\<lambda>i. 7)), Some (new_auth_key (\<lambda>i. 7)))"
  by (simp add: handshake_def initial_def auth_view_def remove_at_def begin_auth_def
      handleAuthResponse_def lookup_bool_def new_auth_key_not_Nil Let_def)

lemma handshake_done:
  "map_option auth_view (run handshake initial) = Some (True, Some (new_auth_key (\<lambda>i. 7)), None)"
  by (simp add: handshake_def initial_def auth_view_def remove_at_def begin_auth_def
      handleAuthResponse_def handleCheckOriginResponse_def lookup_bool_def lookup_bytes_def
      new_auth_key_not_Nil Let_def)

text \<open>
  C2, as written, on one handshake between \<open>A\<close> and \<open>B\<close>. At its end \<open>B\<close> has
  authenticated \<open>A\<close>, and the key \<open>A\<close> stores in \<open>ReceivedKeys[B]\<close> is not the key
  \<open>B\<close> stores in \<open>SentKeys[A]\<close>, which \<open>B\<close> has deleted. After its third step the two
  stored keys are equal, and \<open>B\<close> has not authenticated \<open>A\<close>.
\<close>

theorem authenticated_iff_keys_equal_counterexample:
  "map_option auth_view (run handshake initial) = Some (True, Some (new_auth_key (\<lambda>i. 7)), None) \<and>
   map_option auth_view (run (take 3 handshake) initial) =
     Some (False, Some (new_auth_key (\<lambda>i. 7)), Some (new_auth_key (\<lambda>i. 7))) \<and>
   Some (new_auth_key (\<lambda>i. 7)) \<noteq> (None :: byte list option)"
  using handshake_half handshake_done by simp

text \<open>
  C2, amended. At every reachable state of the authentication protocol, for every pair
  of nodes \<open>(A, B)\<close>: if \<open>authenticatedNodes[A]\<close> of \<open>B\<close> is true, then a correct
  echo-key round-trip has taken place, in this order: \<open>B\<close> issued a 512-byte key to
  \<open>A\<close>, \<open>A\<close> stored it in \<open>ReceivedKeys[B]\<close>, \<open>A\<close> echoed it, and \<open>B\<close> found it
  equal to its \<open>SentKeys[A]\<close>. \<open>B\<close> has deleted \<open>SentKeys[A]\<close> since, and \<open>A\<close>
  still stores a 512-byte key in \<open>ReceivedKeys[B]\<close>.
\<close>

theorem authenticated_only_after_round_trip:
  assumes "reachable s" and "lookup_bool (authenticatedNodes (node_auth s b)) a"
  shows "\<exists>k k'. length k = 512 \<and>
           subseq [Issued b a k, Received a b k, Echoed a b k, Accepted b a k] (history s) \<and>
           SentKeys (node_auth s b) a = None \<and>
           ReceivedKeys (node_auth s a) b = Some k' \<and> length k' = 512"
proof -
  from assms(1) obtain es where es: "run es initial = Some s"
    by (auto simp: reachable_def)
  from run_inv [OF initial_inv es] have i: "inv_authenticated s" "inv_received s"
    by (simp_all add: auth_inv_def)
  from i(1) assms(2) obtain k where k: "SentKeys (node_auth s b) a = None" "length k = 512"
    "subseq [Issued b a k, Received a b k, Echoed a b k, Accepted b a k] (history s)"
    unfolding inv_authenticated_def by blast
  from k(3) have "subseq [Received a b k] (history s)"
    by (metis subseq_Cons' subseq_Cons2_iff list_emb_Nil subseq_order.order_trans)
  then have "Received a b k \<in> set (history s)" by (simp add: subseq_singleton_left)
  with run_kept [OF initial_kept es] obtain k' where k': "ReceivedKeys (node_auth s a) b = Some k'"
    unfolding inv_kept_def by blast
  with i(2) have "length k' = 512" unfolding inv_received_def by blast
  with k k' show ?thesis by blast
qed

theorem authenticated_only_after_round_trip_witness:
  "\<exists>s. run handshake initial = Some s \<and> reachable s \<and>
       lookup_bool (authenticatedNodes (node_auth s ''B'')) ''A'' \<and>
       SentKeys (node_auth s ''B'') ''A'' = None \<and>
       ReceivedKeys (node_auth s ''A'') ''B'' = Some (new_auth_key (\<lambda>i. 7)) \<and>
       (\<exists>k. length k = 512 \<and>
          subseq [Issued ''B'' ''A'' k, Received ''A'' ''B'' k, Echoed ''A'' ''B'' k,
                  Accepted ''B'' ''A'' k] (history s))"
proof -
  from handshake_done obtain s where s: "run handshake initial = Some s"
    and v: "auth_view s = (True, Some (new_auth_key (\<lambda>i. 7)), None)"
    by (cases "run handshake initial") auto
  from s have r: "reachable s" by (auto simp: reachable_def)
  from v have a: "lookup_bool (authenticatedNodes (node_auth s ''B'')) ''A''"
    and k: "ReceivedKeys (node_auth s ''A'') ''B'' = Some (new_auth_key (\<lambda>i. 7))"
    by (simp_all add: auth_view_def)
  from authenticated_only_after_round_trip [OF r a] s r a k show ?thesis by blast
qed

end
